theory Spec2Isabelle
  imports Complex_Main "HOL-Library.Multiset"
begin

section \<open>Snapshot builder: a shallow embedding of \<^verbatim>\<open>app/snapshot.py\<close>\<close>

text \<open>
  The module assembles a performance snapshot from provider data: four detectors scan
  one data category each and append (Issue, RecommendedAction) pairs to two parallel
  lists; \<^verbatim>\<open>build_snapshot\<close> fetches the data, runs the detectors, sorts both lists
  by rank and falls back to a canned report when no developer token is set or when
  anything inside its \<^verbatim>\<open>try\<close> block raises.

  Conventions of the embedding.
  \<^item> A Python \<^verbatim>\<open>float\<close> is the rational number it denotes (\<^typ>\<open>rat\<close>); the
    comparisons against 0, 20, 50 and 1.0 and the doubling of the account CPA are exact
    on finite floats. NaN, infinities and the negative zero are outside the model.
  \<^item> \<^verbatim>\<open>Optional[float]\<close> is \<^typ>\<open>rat option\<close>; a \<^verbatim>\<open>dict\<close> with string keys is a
    map \<^typ>\<open>string \<rightharpoonup> 'v\<close>; a Python list is a HOL list, \<^verbatim>\<open>xs[:n]\<close> is
    \<^term>\<open>take n xs\<close>.
  \<^item> An exception is a value of \<open>exn\<close>; a computation that may raise returns
    \<open>exn + 'a\<close> with \<open>Inl\<close> for the raise.
  \<^item> Provider calls and \<^verbatim>\<open>print\<close> are recorded in a trace of events returned
    next to the result; \<^verbatim>\<open>print\<close> itself may raise.
\<close>

subsection \<open>Values and records\<close>

text \<open>The values a metadata dictionary or a free-form provider record can hold.\<close>

datatype pyval =
    PNone
  | PBool bool
  | PInt int
  | PFloat rat
  | PStr string
  | PList "pyval list"

text \<open>
  Modelled from the spec: \<^verbatim>\<open>app/models.py\<close> is not among the sources. The records
  below follow the field lists of the spec's data model (section 3) and the keyword
  arguments with which \<^verbatim>\<open>snapshot.py\<close> constructs and reads them.
\<close>

record Summary =
  date_range :: string
  total_spend :: rat
  total_conversions :: rat
  average_cpa :: "rat option"
  roas :: "rat option"
  currency :: string

record Issue =
  type :: string
  severity :: string
  description :: string
  metadata :: "string \<rightharpoonup> pyval"

record RecommendedAction =
  action_type :: string
  description :: string
  priority :: string
  related_issue_type :: string

record SnapshotResponse =
  summary :: Summary
  top_issues :: "Issue list"
  recommended_actions :: "RecommendedAction list"

record CampaignKPI =
  campaign_id :: string
  campaign_name :: string
  spend :: rat
  conversions :: rat
  cpa :: "rat option"

record SearchTermData =
  search_term :: string
  cost :: rat
  clicks :: int
  conversions :: rat
  conversion_rate :: "rat option"

record DisapprovedProduct =
  product_id :: string
  title :: string
  issues :: "string list"

text \<open>
  Modelled from the spec: the dictionary returned by \<^verbatim>\<open>ads_get_account_kpis\<close>
  (\<^verbatim>\<open>app/google_ads.py\<close> is not among the sources), with the five keys of the
  provider contract (section 6). \<^verbatim>\<open>account_kpis["k"]\<close> and
  \<^verbatim>\<open>account_kpis.get("average_cpa")\<close> read the field \<open>k\<close>.
\<close>

record AccountKPIs =
  total_spend :: rat
  total_conversions :: rat
  average_cpa :: "rat option"
  roas :: "rat option"
  currency :: string

text \<open>A policy-issue record is a free-form dictionary.\<close>

type_synonym policy_issue = "string \<rightharpoonup> pyval"

subsection \<open>Exceptions and the event trace\<close>

text \<open>
  The exceptions of the model.
  \<^item> \<open>KeyError k\<close> is what \<^verbatim>\<open>d['k']\<close> raises on a missing key.
  \<^item> \<open>ProviderError msg\<close> stands for an instance of \<^verbatim>\<open>Exception\<close> raised by a provider
    call, \<open>msg\<close> being its \<^verbatim>\<open>str()\<close>.
  \<^item> \<open>Unprintable x\<close> is an instance of \<^verbatim>\<open>Exception\<close> whose \<^verbatim>\<open>__str__\<close> raises \<open>x\<close>.
  \<^item> \<open>OSError msg\<close> is what a write to a closed or broken output stream raises.
  \<^item> \<open>BaseOnly name\<close> is an instance of \<^verbatim>\<open>BaseException\<close> that is not an instance of
    \<^verbatim>\<open>Exception\<close>: \<^verbatim>\<open>KeyboardInterrupt\<close>, \<^verbatim>\<open>SystemExit\<close>, \<^verbatim>\<open>GeneratorExit\<close>.
\<close>

datatype exn =
    KeyError string
  | ProviderError string
  | Unprintable exn
  | OSError string
  | BaseOnly string

text \<open>What \<^verbatim>\<open>except Exception\<close> catches.\<close>

fun is_Exception :: "exn \<Rightarrow> bool" where
  "is_Exception (BaseOnly name) = False"
| "is_Exception x = True"

datatype event = Called string | Printed string

type_synonym 'a io = "(exn + 'a) \<times> event list"

definition ret :: "'a \<Rightarrow> 'a io" where
  "ret x = (Inr x, [])"

definition call :: "string \<Rightarrow> exn + 'a \<Rightarrow> 'a io" where
  "call name outcome = (outcome, [Called name])"

definition lift :: "exn + 'a \<Rightarrow> 'a io" where
  "lift outcome = (outcome, [])"

text \<open>Sequencing: a raise skips the rest; the traces are concatenated.\<close>

definition bind_io :: "'a io \<Rightarrow> ('a \<Rightarrow> 'b io) \<Rightarrow> 'b io" where
  "bind_io m f =
     (case m of
        (Inl e, tr) \<Rightarrow> (Inl e, tr)
      | (Inr x, tr) \<Rightarrow> (case f x of (r, tr') \<Rightarrow> (r, tr @ tr')))"

subsection \<open>String formatting\<close>

definition quoted :: "string \<Rightarrow> string" where
  "quoted s = [CHR 0x27] @ s @ [CHR 0x27]"

definition digit_char :: "nat \<Rightarrow> char" where
  "digit_char d = ''0123456789'' ! (d mod 10)"

fun str_nat :: "nat \<Rightarrow> string" where
  "str_nat n =
     (if n < 10 then [digit_char n] else str_nat (n div 10) @ [digit_char (n mod 10)])"

declare str_nat.simps [simp del]

definition round_half_even :: "rat \<Rightarrow> int" where
  "round_half_even q =
     (let f = \<lfloor>q\<rfloor>; r = q - of_int f
      in if r < 1 / 2 then f
         else if 1 / 2 < r then f + 1
         else if even f then f else f + 1)"

text \<open>
  \<^verbatim>\<open>f"{x:.2f}"\<close>: the exact value of the float, correctly rounded (ties to even) to
  two decimals, with the sign of \<open>x\<close>.
\<close>

definition format_2f :: "rat \<Rightarrow> string" where
  "format_2f x =
     (let n = nat (round_half_even (\<bar>x\<bar> * 100))
      in (if x < 0 then ''-'' else '''') @ str_nat (n div 100) @ ''.''
         @ [digit_char (n div 10), digit_char n])"

text \<open>
  \<^verbatim>\<open>str(e)\<close>, which the handler's f-string evaluates: a \<^verbatim>\<open>KeyError\<close> shows its key
  quoted, and the call raises when the exception's \<^verbatim>\<open>__str__\<close> does.
\<close>

fun exn_str :: "exn \<Rightarrow> exn + string" where
  "exn_str (KeyError k) = Inr (quoted k)"
| "exn_str (ProviderError msg) = Inr msg"
| "exn_str (Unprintable x) = Inl x"
| "exn_str (OSError msg) = Inr msg"
| "exn_str (BaseOnly name) = Inr name"

definition getitem :: "(string \<rightharpoonup> 'v) \<Rightarrow> string \<Rightarrow> exn + 'v" where
  "getitem d k = (case d k of None \<Rightarrow> Inl (KeyError k) | Some v \<Rightarrow> Inr v)"

subsection \<open>The fallback report\<close>

text \<open>
  The literals \<^verbatim>\<open>27.79\<close>, \<^verbatim>\<open>3.2\<close> and \<^verbatim>\<open>45.20\<close> are not binary fractions; each
  denotes the nearest double, a multiple of a power of two. The other float literals of
  the module (1250.50, 45.0, 150.00, 1.0, 10.0) are exact.
\<close>

definition float_27_79 :: rat where
  "float_27_79 = 3911094801394565 / 2 ^ 47"

definition float_3_2 :: rat where
  "float_3_2 = 3602879701896397 / 2 ^ 50"

definition float_45_20 :: rat where
  "float_45_20 = 3180667236830413 / 2 ^ 46"

definition build_demo_snapshot :: "string \<Rightarrow> string \<Rightarrow> SnapshotResponse" where
  "build_demo_snapshot customer_id date_range0 =
     (let summary0 = \<lparr>
            Summary.date_range = date_range0,
            total_spend = 1250.50,
            total_conversions = 45.0,
            average_cpa = Some float_27_79,
            roas = Some float_3_2,
            currency = ''USD'' \<rparr>;
          issues0 = [];
          recommendations0 = [];
          issues1 = issues0 @ [\<lparr>
            type = ''disapproved_product'',
            severity = ''high'',
            description =
              ''Product 'Premium Wireless Headphones' (ID: 5521) is disapproved: Invalid GTIN'',
            metadata = [
              ''product_id'' \<mapsto> PStr ''5521'',
              ''product_title'' \<mapsto> PStr ''Premium Wireless Headphones'',
              ''issues'' \<mapsto> PList [PStr ''Invalid GTIN''] ] \<rparr>];
          recommendations1 = recommendations0 @ [\<lparr>
            action_type = ''fix_product_feed'',
            description =
              ''Fix product data for 'Premium Wireless Headphones' and request a review in Merchant Center'',
            priority = ''high'',
            related_issue_type = ''disapproved_product'' \<rparr>];
          issues2 = issues1 @ [\<lparr>
            type = ''zero_conversion_campaign'',
            severity = ''high'',
            description = ''Campaign 'Display - Retargeting' spent $150.00 with 0 conversions'',
            metadata = [
              ''campaign_id'' \<mapsto> PStr ''998877'',
              ''campaign_name'' \<mapsto> PStr ''Display - Retargeting'',
              ''spend'' \<mapsto> PFloat 150.00,
              ''conversions'' \<mapsto> PInt 0 ] \<rparr>];
          recommendations2 = recommendations1 @ [\<lparr>
            action_type = ''optimize_campaign'',
            description =
              ''Review and optimize campaign 'Display - Retargeting' or pause it to prevent budget waste'',
            priority = ''high'',
            related_issue_type = ''zero_conversion_campaign'' \<rparr>];
          issues3 = issues2 @ [\<lparr>
            type = ''wasteful_search_term'',
            severity = ''medium'',
            description = ''Search term 'free headphones' spent $45.20 with 0 conversions'',
            metadata = [
              ''search_term'' \<mapsto> PStr ''free headphones'',
              ''cost'' \<mapsto> PFloat float_45_20,
              ''clicks'' \<mapsto> PInt 32,
              ''conversions'' \<mapsto> PInt 0 ] \<rparr>];
          recommendations3 = recommendations2 @ [\<lparr>
            action_type = ''add_negative_keyword'',
            description =
              ''Add 'free headphones' as a negative keyword to prevent budget waste'',
            priority = ''medium'',
            related_issue_type = ''wasteful_search_term'' \<rparr>]
      in \<lparr> summary = summary0,
           top_issues = issues3,
           recommended_actions = recommendations3 \<rparr>)"

subsection \<open>The detectors\<close>

text \<open>
  Each \<^verbatim>\<open>for\<close> loop is a recursion over the (truncated) input that threads the two
  lists \<^verbatim>\<open>issues\<close> and \<^verbatim>\<open>recommendations\<close>; \<^verbatim>\<open>append\<close> adds at the end.
\<close>

definition product_step ::
  "DisapprovedProduct \<Rightarrow> Issue list \<times> RecommendedAction list
     \<Rightarrow> Issue list \<times> RecommendedAction list" where
  "product_step product acc =
     (case acc of (iss, recs) \<Rightarrow>
        let issue_desc0 = ''Product '' @ quoted (title product) @ '' (ID: ''
                          @ product_id product @ '') is disapproved'';
            issue_desc = (case issues product of
                            [] \<Rightarrow> issue_desc0
                          | reason # _ \<Rightarrow> issue_desc0 @ '': '' @ reason)
        in (iss @ [\<lparr>
              type = ''disapproved_product'',
              severity = ''high'',
              description = issue_desc,
              metadata = [
                ''product_id'' \<mapsto> PStr (product_id product),
                ''product_title'' \<mapsto> PStr (title product),
                ''issues'' \<mapsto> PList (map PStr (issues product)) ] \<rparr>],
            recs @ [\<lparr>
              action_type = ''fix_product_feed'',
              description = ''Fix product data for '' @ quoted (title product)
                            @ '' and request a review in Merchant Center'',
              priority = ''high'',
              related_issue_type = ''disapproved_product'' \<rparr>]))"

fun products_loop ::
  "DisapprovedProduct list \<Rightarrow> Issue list \<times> RecommendedAction list
     \<Rightarrow> Issue list \<times> RecommendedAction list" where
  "products_loop [] acc = acc"
| "products_loop (product # rest) acc = products_loop rest (product_step product acc)"

definition analyze_disapproved_products ::
  "DisapprovedProduct list \<Rightarrow> Issue list \<times> RecommendedAction list" where
  "analyze_disapproved_products disapproved_products =
     products_loop (take 10 disapproved_products) ([], [])"

definition campaign_step ::
  "rat option \<Rightarrow> CampaignKPI \<Rightarrow> Issue list \<times> RecommendedAction list
     \<Rightarrow> Issue list \<times> RecommendedAction list" where
  "campaign_step avg_account_cpa campaign acc =
     (case acc of (iss, recs) \<Rightarrow>
        if CampaignKPI.conversions campaign = 0 \<and> 50 < spend campaign then
          (iss @ [\<lparr>
             type = ''zero_conversion_campaign'',
             severity = ''high'',
             description = ''Campaign '' @ quoted (campaign_name campaign) @ '' spent $''
                           @ format_2f (spend campaign) @ '' with 0 conversions'',
             metadata = [
               ''campaign_id'' \<mapsto> PStr (campaign_id campaign),
               ''campaign_name'' \<mapsto> PStr (campaign_name campaign),
               ''spend'' \<mapsto> PFloat (spend campaign),
               ''conversions'' \<mapsto> PFloat (CampaignKPI.conversions campaign) ] \<rparr>],
           recs @ [\<lparr>
             action_type = ''optimize_campaign'',
             description = ''Review and optimize campaign '' @ quoted (campaign_name campaign)
                           @ '' or pause it to prevent budget waste'',
             priority = ''high'',
             related_issue_type = ''zero_conversion_campaign'' \<rparr>])
        else
          (case (cpa campaign, avg_account_cpa) of
             (Some campaign_cpa, Some avg) \<Rightarrow>
               if campaign_cpa \<noteq> 0 \<and> avg \<noteq> 0 \<and> avg * 2 < campaign_cpa then
                 (iss @ [\<lparr>
                    type = ''high_cpa_campaign'',
                    severity = ''medium'',
                    description = ''Campaign '' @ quoted (campaign_name campaign)
                                  @ '' has CPA of $'' @ format_2f campaign_cpa
                                  @ '', 2x higher than account average'',
                    metadata = [
                      ''campaign_id'' \<mapsto> PStr (campaign_id campaign),
                      ''campaign_name'' \<mapsto> PStr (campaign_name campaign),
                      ''cpa'' \<mapsto> PFloat campaign_cpa,
                      ''account_avg_cpa'' \<mapsto> PFloat avg ] \<rparr>],
                  recs @ [\<lparr>
                    action_type = ''optimize_campaign'',
                    description = ''Optimize targeting or ad copy for campaign ''
                                  @ quoted (campaign_name campaign) @ '' to reduce CPA'',
                    priority = ''medium'',
                    related_issue_type = ''high_cpa_campaign'' \<rparr>])
               else (iss, recs)
           | _ \<Rightarrow> (iss, recs)))"

fun campaigns_loop ::
  "rat option \<Rightarrow> CampaignKPI list \<Rightarrow> Issue list \<times> RecommendedAction list
     \<Rightarrow> Issue list \<times> RecommendedAction list" where
  "campaigns_loop avg_account_cpa [] acc = acc"
| "campaigns_loop avg_account_cpa (campaign # rest) acc =
     campaigns_loop avg_account_cpa rest (campaign_step avg_account_cpa campaign acc)"

definition analyze_campaigns ::
  "CampaignKPI list \<Rightarrow> AccountKPIs \<Rightarrow> Issue list \<times> RecommendedAction list" where
  "analyze_campaigns campaign_kpis account_kpis =
     (let avg_account_cpa = AccountKPIs.average_cpa account_kpis
      in campaigns_loop avg_account_cpa campaign_kpis ([], []))"

text \<open>
  In \<^verbatim>\<open>campaign.cpa and avg_account_cpa and campaign.cpa > avg_account_cpa * 2\<close> an
  operand that is \<^verbatim>\<open>None\<close> or zero is false and ends the conjunction; the same holds
  for \<^verbatim>\<open>term.conversion_rate and ...\<close> below.
\<close>

definition search_term_step ::
  "SearchTermData \<Rightarrow> Issue list \<times> RecommendedAction list
     \<Rightarrow> Issue list \<times> RecommendedAction list" where
  "search_term_step term acc =
     (case acc of (iss, recs) \<Rightarrow>
        if SearchTermData.conversions term = 0 \<and> 20 < cost term then
          (iss @ [\<lparr>
             type = ''wasteful_search_term'',
             severity = ''medium'',
             description = ''Search term '' @ quoted (search_term term) @ '' spent $''
                           @ format_2f (cost term) @ '' with 0 conversions'',
             metadata = [
               ''search_term'' \<mapsto> PStr (search_term term),
               ''cost'' \<mapsto> PFloat (cost term),
               ''clicks'' \<mapsto> PInt (clicks term),
               ''conversions'' \<mapsto> PFloat (SearchTermData.conversions term) ] \<rparr>],
           recs @ [\<lparr>
             action_type = ''add_negative_keyword'',
             description = ''Add '' @ quoted (search_term term)
                           @ '' as a negative keyword to prevent budget waste'',
             priority = ''medium'',
             related_issue_type = ''wasteful_search_term'' \<rparr>])
        else
          (case conversion_rate term of
             Some rate \<Rightarrow>
               if rate \<noteq> 0 \<and> rate < 1.0 \<and> 50 < cost term then
                 (iss @ [\<lparr>
                    type = ''low_conversion_search_term'',
                    severity = ''low'',
                    description = ''Search term '' @ quoted (search_term term)
                                  @ '' has low conversion rate ('' @ format_2f rate
                                  @ ''%) with $'' @ format_2f (cost term) @ '' spend'',
                    metadata = [
                      ''search_term'' \<mapsto> PStr (search_term term),
                      ''cost'' \<mapsto> PFloat (cost term),
                      ''conversion_rate'' \<mapsto> PFloat rate ] \<rparr>],
                  recs @ [\<lparr>
                    action_type = ''review_search_term'',
                    description = ''Review search term '' @ quoted (search_term term)
                                  @ '' and consider adding as negative or adjusting match type'',
                    priority = ''low'',
                    related_issue_type = ''low_conversion_search_term'' \<rparr>])
               else (iss, recs)
           | None \<Rightarrow> (iss, recs)))"

fun search_terms_loop ::
  "SearchTermData list \<Rightarrow> Issue list \<times> RecommendedAction list
     \<Rightarrow> Issue list \<times> RecommendedAction list" where
  "search_terms_loop [] acc = acc"
| "search_terms_loop (term # rest) acc = search_terms_loop rest (search_term_step term acc)"

definition analyze_search_terms ::
  "SearchTermData list \<Rightarrow> Issue list \<times> RecommendedAction list" where
  "analyze_search_terms search_terms =
     search_terms_loop (take 15 search_terms) ([], [])"

text \<open>
  The policy detector formats three values of the record into its descriptions. The
  lookups raise \<^verbatim>\<open>KeyError\<close> on a missing key, in the order in which the f-strings
  evaluate them; \<open>py_str\<close> is Python's \<^verbatim>\<open>str()\<close> on a dictionary value, a parameter
  of the model.
\<close>

definition policy_step ::
  "(pyval \<Rightarrow> string) \<Rightarrow> policy_issue \<Rightarrow> Issue list \<times> RecommendedAction list
     \<Rightarrow> exn + Issue list \<times> RecommendedAction list" where
  "policy_step py_str policy_issue acc =
     (case acc of (iss, recs) \<Rightarrow>
        case getitem policy_issue ''ad_name'' of Inl e \<Rightarrow> Inl e | Inr ad_name \<Rightarrow>
        case getitem policy_issue ''campaign_name'' of Inl e \<Rightarrow> Inl e | Inr campaign_name0 \<Rightarrow>
        case getitem policy_issue ''approval_status'' of Inl e \<Rightarrow> Inl e | Inr approval_status \<Rightarrow>
        let iss' = iss @ [\<lparr>
              type = ''policy_limited_ad'',
              severity = ''medium'',
              description = ''Ad '' @ quoted (py_str ad_name) @ '' in campaign ''
                            @ quoted (py_str campaign_name0) @ '' has approval status: ''
                            @ py_str approval_status,
              metadata = policy_issue \<rparr>]
        in case getitem policy_issue ''ad_name'' of Inl e \<Rightarrow> Inl e | Inr ad_name' \<Rightarrow>
           Inr (iss',
                recs @ [\<lparr>
                  action_type = ''fix_policy_issue'',
                  description = ''Review and modify ad '' @ quoted (py_str ad_name')
                                @ '' to comply with Google Ads policies'',
                  priority = ''medium'',
                  related_issue_type = ''policy_limited_ad'' \<rparr>]))"

fun policy_loop ::
  "(pyval \<Rightarrow> string) \<Rightarrow> policy_issue list \<Rightarrow> Issue list \<times> RecommendedAction list
     \<Rightarrow> exn + Issue list \<times> RecommendedAction list" where
  "policy_loop py_str [] acc = Inr acc"
| "policy_loop py_str (policy_issue # rest) acc =
     (case policy_step py_str policy_issue acc of
        Inl e \<Rightarrow> Inl e
      | Inr acc' \<Rightarrow> policy_loop py_str rest acc')"

definition analyze_policy_issues ::
  "(pyval \<Rightarrow> string) \<Rightarrow> policy_issue list \<Rightarrow> exn + Issue list \<times> RecommendedAction list" where
  "analyze_policy_issues py_str policy_issues =
     policy_loop py_str (take 10 policy_issues) ([], [])"

subsection \<open>Sorting by rank\<close>

text \<open>
  \<^verbatim>\<open>list.sort(key=...)\<close> is a stable sort; the stable sort of a list by a key is
  unique, and \<^const>\<open>sort_key\<close> computes it.
\<close>

definition severity_order :: "string \<rightharpoonup> nat" where
  "severity_order = [''high'' \<mapsto> 0, ''medium'' \<mapsto> 1, ''low'' \<mapsto> 2]"

definition priority_order :: "string \<rightharpoonup> nat" where
  "priority_order = [''high'' \<mapsto> 0, ''medium'' \<mapsto> 1, ''low'' \<mapsto> 2]"

definition dict_get :: "('k \<rightharpoonup> 'v) \<Rightarrow> 'k \<Rightarrow> 'v \<Rightarrow> 'v" where
  "dict_get d k dflt = (case d k of None \<Rightarrow> dflt | Some v \<Rightarrow> v)"

definition severity_rank :: "Issue \<Rightarrow> nat" where
  "severity_rank x = dict_get severity_order (severity x) 3"

definition priority_rank :: "RecommendedAction \<Rightarrow> nat" where
  "priority_rank x = dict_get priority_order (priority x) 3"

definition sort_issues :: "Issue list \<Rightarrow> Issue list" where
  "sort_issues iss = sort_key severity_rank iss"

definition sort_recommendations :: "RecommendedAction list \<Rightarrow> RecommendedAction list" where
  "sort_recommendations recs = sort_key priority_rank recs"

subsection \<open>The orchestrator\<close>

text \<open>
  What the module reads from its surroundings: the settings object, the five provider
  functions it imports (each may raise), Python's \<^verbatim>\<open>str()\<close> on dictionary values, and
  the standard output that \<^verbatim>\<open>print\<close> writes to: \<open>print_raises msg\<close> is \<open>None\<close> when
  printing \<open>msg\<close> succeeds and \<open>Some x\<close> when it raises \<open>x\<close>.
\<close>

record env =
  google_ads_developer_token :: "string option"
  ads_get_account_kpis :: "string \<Rightarrow> string \<Rightarrow> exn + AccountKPIs"
  ads_get_campaign_kpis :: "string \<Rightarrow> string \<Rightarrow> exn + CampaignKPI list"
  ads_get_search_terms :: "string \<Rightarrow> string \<Rightarrow> rat \<Rightarrow> exn + SearchTermData list"
  ads_get_policy_issues :: "string \<Rightarrow> exn + policy_issue list"
  mc_get_disapproved_products :: "exn + DisapprovedProduct list"
  py_str :: "pyval \<Rightarrow> string"
  print_raises :: "string \<Rightarrow> exn option"

text \<open>\<^verbatim>\<open>not settings.google_ads_developer_token\<close>: \<^verbatim>\<open>None\<close> and the empty string.\<close>

definition no_developer_token :: "env \<Rightarrow> bool" where
  "no_developer_token e =
     (case google_ads_developer_token e of None \<Rightarrow> True | Some tok \<Rightarrow> tok = [])"

text \<open>Lines 48 to 94: the summary, the four detectors in their fixed order, the two sorts.\<close>

definition assemble ::
  "(pyval \<Rightarrow> string) \<Rightarrow> string \<Rightarrow> AccountKPIs \<Rightarrow> CampaignKPI list \<Rightarrow> SearchTermData list
     \<Rightarrow> policy_issue list \<Rightarrow> DisapprovedProduct list \<Rightarrow> exn + SnapshotResponse" where
  "assemble str date_range0 account_kpis campaign_kpis search_terms policy_issues
       disapproved_products =
     (let summary0 = \<lparr>
            Summary.date_range = date_range0,
            total_spend = AccountKPIs.total_spend account_kpis,
            total_conversions = AccountKPIs.total_conversions account_kpis,
            average_cpa = AccountKPIs.average_cpa account_kpis,
            roas = AccountKPIs.roas account_kpis,
            currency = AccountKPIs.currency account_kpis \<rparr>;
          issues0 = [];
          recommendations0 = [];
          (issues_from_products, recs_from_products) =
            analyze_disapproved_products disapproved_products;
          issues1 = issues0 @ issues_from_products;
          recommendations1 = recommendations0 @ recs_from_products;
          (issues_from_campaigns, recs_from_campaigns) =
            analyze_campaigns campaign_kpis account_kpis;
          issues2 = issues1 @ issues_from_campaigns;
          recommendations2 = recommendations1 @ recs_from_campaigns;
          (issues_from_search_terms, recs_from_search_terms) =
            analyze_search_terms search_terms;
          issues3 = issues2 @ issues_from_search_terms;
          recommendations3 = recommendations2 @ recs_from_search_terms
      in case analyze_policy_issues str policy_issues of
           Inl e \<Rightarrow> Inl e
         | Inr (issues_from_policy, recs_from_policy) \<Rightarrow>
             let issues4 = issues3 @ issues_from_policy;
                 recommendations4 = recommendations3 @ recs_from_policy
             in Inr \<lparr> summary = summary0,
                      top_issues = sort_issues issues4,
                      recommended_actions = sort_recommendations recommendations4 \<rparr>)"

text \<open>The body of the \<^verbatim>\<open>try\<close> block: five provider calls, then lines 48 to 94.\<close>

definition build_live :: "env \<Rightarrow> string \<Rightarrow> string \<Rightarrow> SnapshotResponse io" where
  "build_live e customer_id date_range0 =
     bind_io (call ''ads_get_account_kpis'' (ads_get_account_kpis e customer_id date_range0))
       (\<lambda>account_kpis.
     bind_io (call ''ads_get_campaign_kpis'' (ads_get_campaign_kpis e customer_id date_range0))
       (\<lambda>campaign_kpis.
     bind_io (call ''ads_get_search_terms''
                (ads_get_search_terms e customer_id date_range0 10.0))
       (\<lambda>search_terms.
     bind_io (call ''ads_get_policy_issues'' (ads_get_policy_issues e customer_id))
       (\<lambda>policy_issues.
     bind_io (call ''mc_get_disapproved_products'' (mc_get_disapproved_products e))
       (\<lambda>disapproved_products.
     lift (assemble (py_str e) date_range0 account_kpis campaign_kpis search_terms
             policy_issues disapproved_products))))))"

text \<open>
  The handler of lines 95 to 98. \<^verbatim>\<open>except Exception\<close> does not catch an exception
  that is not an instance of \<^verbatim>\<open>Exception\<close>: it propagates. For a caught exception the
  f-string evaluates \<^verbatim>\<open>str(e)\<close> and \<^verbatim>\<open>print\<close> writes the message; an exception
  raised by either leaves the handler and propagates. Otherwise the fallback report is
  returned.
\<close>

definition fallback_message :: "string \<Rightarrow> string" where
  "fallback_message s = ''API Error: '' @ s @ ''. Falling back to demo mode.''"

definition handler ::
  "env \<Rightarrow> string \<Rightarrow> string \<Rightarrow> exn \<Rightarrow> event list \<Rightarrow> SnapshotResponse io" where
  "handler e customer_id date_range0 err tr =
     (if \<not> is_Exception err then (Inl err, tr)
      else
        (case exn_str err of
           Inl x \<Rightarrow> (Inl x, tr)
         | Inr s \<Rightarrow>
             (case print_raises e (fallback_message s) of
                Some x \<Rightarrow> (Inl x, tr)
              | None \<Rightarrow>
                  (Inr (build_demo_snapshot customer_id date_range0),
                   tr @ [Printed (fallback_message s)]))))"

text \<open>
  \<^verbatim>\<open>build_snapshot\<close>: the demo-mode gate, then the \<^verbatim>\<open>try\<close> block with its handler.
\<close>

definition build_snapshot :: "env \<Rightarrow> string \<Rightarrow> string \<Rightarrow> SnapshotResponse io" where
  "build_snapshot e customer_id date_range0 =
     (if no_developer_token e then ret (build_demo_snapshot customer_id date_range0)
      else
        (case build_live e customer_id date_range0 of
           (Inr response, tr) \<Rightarrow> (Inr response, tr)
         | (Inl err, tr) \<Rightarrow> handler e customer_id date_range0 err tr))"

subsection \<open>Notions used in the statements\<close>

text \<open>
  Two lists of findings are parallel when they have the same length and each action
  names the type of the issue at its position.
\<close>

definition parallel :: "Issue list \<Rightarrow> RecommendedAction list \<Rightarrow> bool" where
  "parallel iss recs =
     (length iss = length recs \<and>
      (\<forall>i < length iss. related_issue_type (recs ! i) = type (iss ! i)))"

text \<open>The keys that the f-strings of \<^verbatim>\<open>analyze_policy_issues\<close> look up, in their order.\<close>

definition required_keys :: "string list" where
  "required_keys = [''ad_name'', ''campaign_name'', ''approval_status'']"

definition has_required_keys :: "policy_issue \<Rightarrow> bool" where
  "has_required_keys policy_issue = (\<forall>k \<in> set required_keys. policy_issue k \<noteq> None)"

text \<open>
  An exception is handled in an environment when the handler catches it and its own
  \<^verbatim>\<open>str(e)\<close> and \<^verbatim>\<open>print\<close> do not raise.
\<close>

definition handled :: "env \<Rightarrow> exn \<Rightarrow> bool" where
  "handled e err =
     (is_Exception err \<and>
      (case exn_str err of
         Inl x \<Rightarrow> False
       | Inr s \<Rightarrow> print_raises e (fallback_message s) = None))"

section \<open>Properties\<close>

subsection \<open>Formatting, on an amount of the fallback report\<close>

lemma str_nat_150: "str_nat 150 = ''150''"
  by (simp add: str_nat.simps [of 150] str_nat.simps [of 15] str_nat.simps [of "Suc 0"]
        digit_char_def)

lemma format_2f_150: "format_2f 150 = ''150.00''"
proof -
  have "round_half_even (\<bar>150\<bar> * 100) = 15000"
    by (simp add: round_half_even_def)
  then show ?thesis
    by (simp add: format_2f_def str_nat_150 digit_char_def)
qed

subsection \<open>The float literals of the fallback report\<close>

text \<open>Each constant has a 53-bit numerator and lies within half a unit in the last place.\<close>

lemma float_literals_nearest:
  "\<bar>float_27_79 - 27.79\<bar> \<le> 1 / 2 ^ 49 \<and>
   \<bar>float_3_2 - 3.2\<bar> \<le> 1 / 2 ^ 52 \<and>
   \<bar>float_45_20 - 45.20\<bar> \<le> 1 / 2 ^ 48"
  by (simp add: float_27_79_def float_3_2_def float_45_20_def)

subsection \<open>Lists of singletons\<close>

lemma concat_singletons_nth:
  assumes "\<And>x. length (f x) = 1" and "i < length xs"
  shows "[concat (map f xs) ! i] = f (xs ! i)"
  using assms(2)
proof (induction xs arbitrary: i)
  case Nil
  then show ?case by simp
next
  case (Cons a xs)
  obtain y where y: "f a = [y]" using assms(1)[of a] by (cases "f a") auto
  show ?case using Cons y by (cases i) auto
qed

lemma concat_singletons_length:
  assumes "\<And>x. length (f x) = 1"
  shows "length (concat (map f xs)) = length xs"
  by (induction xs) (simp_all add: assms)


subsection \<open>The product feed detector\<close>

lemma product_step_acc:
  "product_step p (iss, recs) =
     (iss @ fst (product_step p ([], [])), recs @ snd (product_step p ([], [])))"
  by (simp add: product_step_def Let_def)

lemma products_loop_acc:
  "products_loop ps (iss, recs) =
     (iss @ concat (map (\<lambda>p. fst (product_step p ([], []))) ps),
      recs @ concat (map (\<lambda>p. snd (product_step p ([], []))) ps))"
proof (induction ps arbitrary: iss recs)
  case Nil
  show ?case by simp
next
  case (Cons p ps)
  have "products_loop (p # ps) (iss, recs) =
          products_loop ps (iss @ fst (product_step p ([], [])),
                            recs @ snd (product_step p ([], [])))"
    by (simp only: products_loop.simps product_step_acc [of p iss recs])
  then show ?case
    by (simp add: Cons.IH)
qed

lemma analyze_disapproved_products_single:
  "analyze_disapproved_products [p] = product_step p ([], [])"
  by (simp add: analyze_disapproved_products_def)

lemma analyze_disapproved_products_concat:
  "analyze_disapproved_products ps =
     (concat (map (\<lambda>p. fst (analyze_disapproved_products [p])) (take 10 ps)),
      concat (map (\<lambda>p. snd (analyze_disapproved_products [p])) (take 10 ps)))"
  unfolding analyze_disapproved_products_single
  by (simp add: analyze_disapproved_products_def products_loop_acc)

lemma product_single_fields:
  "[x] = fst (analyze_disapproved_products [p]) \<Longrightarrow>
     type x = ''disapproved_product'' \<and> severity x = ''high'' \<and>
     metadata x ''product_id'' = Some (PStr (product_id p))"
  by (auto simp: analyze_disapproved_products_def product_step_def Let_def)

lemma product_single_length:
  "length (fst (analyze_disapproved_products [p])) = 1 \<and> length (snd (analyze_disapproved_products [p])) = 1"
  by (simp add: analyze_disapproved_products_def product_step_def Let_def)

text \<open>
  Claim C5. \<^verbatim>\<open>analyze_disapproved_products\<close> looks at the first ten products only and
  in input order: an empty input gives two empty lists, the result depends on the
  first ten entries alone, the number of issues is the smaller of ten and the input
  length (so twelve products give exactly ten issues), and the issue at position \<open>i\<close>
  is the one issue the detector emits for the product at position \<open>i\<close>, of type
  \<^verbatim>\<open>disapproved_product\<close> and severity \<^verbatim>\<open>high\<close>, carrying that product's id.
\<close>

theorem analyze_disapproved_products_first_ten:
  "analyze_disapproved_products [] = ([], []) \<and>
   analyze_disapproved_products ps = analyze_disapproved_products (take 10 ps) \<and>
   length (fst (analyze_disapproved_products ps)) = min 10 (length ps) \<and>
   (length ps = 12 \<longrightarrow> length (fst (analyze_disapproved_products ps)) = 10) \<and>
   (\<forall>i < min 10 (length ps).
      [fst (analyze_disapproved_products ps) ! i] = fst (analyze_disapproved_products [ps ! i]) \<and>
      type (fst (analyze_disapproved_products ps) ! i) = ''disapproved_product'' \<and>
      severity (fst (analyze_disapproved_products ps) ! i) = ''high'' \<and>
      metadata (fst (analyze_disapproved_products ps) ! i) ''product_id''
        = Some (PStr (product_id (ps ! i))))"
proof -
  let ?f = "\<lambda>p. fst (analyze_disapproved_products [p])"
  have one: "\<And>p. length (?f p) = 1"
    by (simp add: product_single_length)
  have issues_eq: "fst (analyze_disapproved_products ps) = concat (map ?f (take 10 ps))"
    by (subst analyze_disapproved_products_concat) simp
  have len: "length (fst (analyze_disapproved_products ps)) = min 10 (length ps)"
    unfolding issues_eq by (simp add: concat_singletons_length [of ?f, OF one] min.commute)
  have nth: "[fst (analyze_disapproved_products ps) ! i] = ?f (ps ! i)"
    if "i < min 10 (length ps)" for i
  proof -
    from that have "i < length (take 10 ps)" by simp
    then have "[concat (map ?f (take 10 ps)) ! i] = ?f (take 10 ps ! i)"
      by (rule concat_singletons_nth [of ?f, OF one])
    with that show ?thesis by (simp add: issues_eq)
  qed
  have fields: "type (fst (analyze_disapproved_products ps) ! i) = ''disapproved_product'' \<and>
      severity (fst (analyze_disapproved_products ps) ! i) = ''high'' \<and>
      metadata (fst (analyze_disapproved_products ps) ! i) ''product_id''
        = Some (PStr (product_id (ps ! i)))"
    if "i < min 10 (length ps)" for i
    using nth [OF that] by (rule product_single_fields)
  have empty: "analyze_disapproved_products [] = ([], [])"
    by (simp add: analyze_disapproved_products_def)
  have trunc: "analyze_disapproved_products ps = analyze_disapproved_products (take 10 ps)"
    by (simp add: analyze_disapproved_products_def)
  from empty trunc len nth fields show ?thesis
    by simp
qed

theorem analyze_disapproved_products_first_ten_witness:
  "length (fst (analyze_disapproved_products
      (map (\<lambda>n. \<lparr>product_id = str_nat n, title = ''Item'', issues = [''Invalid GTIN'']\<rparr>)
           [0..<12]))) = 10 \<and>
   metadata (fst (analyze_disapproved_products
      (map (\<lambda>n. \<lparr>product_id = str_nat n, title = ''Item'', issues = [''Invalid GTIN'']\<rparr>)
           [0..<12])) ! 9) ''product_id'' = Some (PStr ''9'')"
proof -
  let ?ps = "map (\<lambda>n. \<lparr>product_id = str_nat n, title = ''Item'',
                         issues = [''Invalid GTIN'']\<rparr>) [0..<12]"
  have twelve: "length ?ps = 12"
    by simp
  have ninth: "(9::nat) < min 10 (length ?ps)"
    by simp
  have id9: "product_id (?ps ! 9) = ''9''"
    by (simp add: str_nat.simps [of 9] digit_char_def)
  from analyze_disapproved_products_first_ten [of ?ps] twelve ninth
  have "length (fst (analyze_disapproved_products ?ps)) = 10"
    and "metadata (fst (analyze_disapproved_products ?ps) ! 9) ''product_id''
           = Some (PStr (product_id (?ps ! 9)))"
    by blast+
  then show ?thesis
    by (simp only: id9)
qed

subsection \<open>The campaign performance detector\<close>

lemma campaign_step_acc:
  "campaign_step avg c (iss, recs) =
     (iss @ fst (campaign_step avg c ([], [])), recs @ snd (campaign_step avg c ([], [])))"
  by (simp add: campaign_step_def split: option.splits)

lemma campaigns_loop_acc:
  "campaigns_loop avg cs (iss, recs) =
     (iss @ concat (map (\<lambda>c. fst (campaign_step avg c ([], []))) cs),
      recs @ concat (map (\<lambda>c. snd (campaign_step avg c ([], []))) cs))"
proof (induction cs arbitrary: iss recs)
  case Nil
  show ?case by simp
next
  case (Cons c cs)
  have "campaigns_loop avg (c # cs) (iss, recs) =
          campaigns_loop avg cs (iss @ fst (campaign_step avg c ([], [])),
                                 recs @ snd (campaign_step avg c ([], [])))"
    by (simp only: campaigns_loop.simps campaign_step_acc [of avg c iss recs])
  then show ?case
    by (simp add: Cons.IH)
qed

lemma analyze_campaigns_single:
  "analyze_campaigns [c] kp = campaign_step (AccountKPIs.average_cpa kp) c ([], [])"
  by (simp add: analyze_campaigns_def)

lemma analyze_campaigns_concat:
  "analyze_campaigns cs kp =
     (concat (map (\<lambda>c. fst (analyze_campaigns [c] kp)) cs),
      concat (map (\<lambda>c. snd (analyze_campaigns [c] kp)) cs))"
  unfolding analyze_campaigns_single
  by (simp add: analyze_campaigns_def campaigns_loop_acc Let_def)

lemma analyze_campaigns_append:
  "analyze_campaigns (xs @ ys) kp =
     (fst (analyze_campaigns xs kp) @ fst (analyze_campaigns ys kp),
      snd (analyze_campaigns xs kp) @ snd (analyze_campaigns ys kp))"
  by (simp add: analyze_campaigns_concat [of "xs @ ys"] analyze_campaigns_concat [of xs]
        analyze_campaigns_concat [of ys])

lemma zero_conversion_single:
  assumes "CampaignKPI.conversions c = 0" and "50 < spend c"
  shows "\<exists>x a. analyze_campaigns [c] kp = ([x], [a]) \<and>
           type x = ''zero_conversion_campaign'' \<and> severity x = ''high'' \<and>
           action_type a = ''optimize_campaign'' \<and> priority a = ''high'' \<and>
           related_issue_type a = ''zero_conversion_campaign''"
  using assms by (simp add: analyze_campaigns_def campaign_step_def)

text \<open>
  Claim C2. A campaign with no conversions and a spend above 50 yields exactly one
  finding: an issue of type \<^verbatim>\<open>zero_conversion_campaign\<close> and severity \<^verbatim>\<open>high\<close>,
  paired with an \<^verbatim>\<open>optimize_campaign\<close> action of priority \<^verbatim>\<open>high\<close>. Whatever its
  CPA and the account average, no \<^verbatim>\<open>high_cpa_campaign\<close> issue is emitted for it: in a
  list of campaigns it contributes this one pair, between the findings of the
  campaigns before it and those of the campaigns after it.
\<close>

theorem zero_conversion_campaign_exclusive:
  assumes "CampaignKPI.conversions c = 0" and "50 < spend c"
  shows "\<exists>x a. analyze_campaigns [c] kp = ([x], [a]) \<and>
           type x = ''zero_conversion_campaign'' \<and> severity x = ''high'' \<and>
           action_type a = ''optimize_campaign'' \<and> priority a = ''high'' \<and>
           related_issue_type a = ''zero_conversion_campaign'' \<and>
           (\<forall>y \<in> set (fst (analyze_campaigns [c] kp)). type y \<noteq> ''high_cpa_campaign'') \<and>
           analyze_campaigns (before @ c # after) kp =
             (fst (analyze_campaigns before kp) @ [x] @ fst (analyze_campaigns after kp),
              snd (analyze_campaigns before kp) @ [a] @ snd (analyze_campaigns after kp))"
proof -
  from zero_conversion_single [OF assms, of kp]
  obtain x a where single: "analyze_campaigns [c] kp = ([x], [a])"
    and fields: "type x = ''zero_conversion_campaign''" "severity x = ''high''"
      "action_type a = ''optimize_campaign''" "priority a = ''high''"
      "related_issue_type a = ''zero_conversion_campaign''"
    by blast
  have "analyze_campaigns (before @ [c] @ after) kp =
          (fst (analyze_campaigns before kp) @ [x] @ fst (analyze_campaigns after kp),
           snd (analyze_campaigns before kp) @ [a] @ snd (analyze_campaigns after kp))"
    by (simp only: analyze_campaigns_append single fst_conv snd_conv)
  with single fields show ?thesis
    by simp
qed

theorem zero_conversion_campaign_exclusive_witness:
  "map type (fst (analyze_campaigns
      [\<lparr>campaign_id = ''1'', campaign_name = ''Brand'', spend = 40, conversions = 2, cpa = Some 20\<rparr>,
       \<lparr>campaign_id = ''2'', campaign_name = ''Display'', spend = 51, conversions = 0, cpa = Some 1000\<rparr>,
       \<lparr>campaign_id = ''3'', campaign_name = ''Video'', spend = 500, conversions = 5, cpa = Some 100\<rparr>]
      \<lparr>total_spend = 591, total_conversions = 7, average_cpa = Some 40, roas = None,
        currency = ''USD''\<rparr>))
   = [''zero_conversion_campaign'', ''high_cpa_campaign'']"
proof -
  let ?c1 = "\<lparr>campaign_id = ''1'', campaign_name = ''Brand'', spend = 40, conversions = 2, cpa = Some 20\<rparr>"
  let ?c2 = "\<lparr>campaign_id = ''2'', campaign_name = ''Display'', spend = 51, conversions = 0, cpa = Some 1000\<rparr>"
  let ?c3 = "\<lparr>campaign_id = ''3'', campaign_name = ''Video'', spend = 500, conversions = 5, cpa = Some 100\<rparr>"
  let ?kp = "\<lparr>total_spend = 591, total_conversions = 7, average_cpa = Some 40, roas = None,
        currency = ''USD''\<rparr>"
  have h1: "CampaignKPI.conversions ?c2 = 0" and h2: "50 < spend ?c2"
    by simp_all
  from zero_conversion_campaign_exclusive [OF h1 h2, of ?kp "[?c1]" "[?c3]"]
  obtain x where "type x = ''zero_conversion_campaign''"
    and "fst (analyze_campaigns ([?c1] @ ?c2 # [?c3]) ?kp)
           = fst (analyze_campaigns [?c1] ?kp) @ [x] @ fst (analyze_campaigns [?c3] ?kp)"
    by auto
  moreover have "map type (fst (analyze_campaigns [?c1] ?kp)) = []"
    by (simp add: analyze_campaigns_def campaign_step_def)
  moreover have "map type (fst (analyze_campaigns [?c3] ?kp)) = [''high_cpa_campaign'']"
    by (simp add: analyze_campaigns_def campaign_step_def)
  ultimately show ?thesis
    by simp
qed

subsection \<open>The search term detector\<close>

lemma search_term_step_acc:
  "search_term_step t (iss, recs) =
     (iss @ fst (search_term_step t ([], [])), recs @ snd (search_term_step t ([], [])))"
  by (simp add: search_term_step_def split: option.splits)

lemma search_terms_loop_acc:
  "search_terms_loop ts (iss, recs) =
     (iss @ concat (map (\<lambda>t. fst (search_term_step t ([], []))) ts),
      recs @ concat (map (\<lambda>t. snd (search_term_step t ([], []))) ts))"
proof (induction ts arbitrary: iss recs)
  case Nil
  show ?case by simp
next
  case (Cons t ts)
  have "search_terms_loop (t # ts) (iss, recs) =
          search_terms_loop ts (iss @ fst (search_term_step t ([], [])),
                                recs @ snd (search_term_step t ([], [])))"
    by (simp only: search_terms_loop.simps search_term_step_acc [of t iss recs])
  then show ?case
    by (simp add: Cons.IH)
qed

lemma analyze_search_terms_single:
  "analyze_search_terms [t] = search_term_step t ([], [])"
  by (simp add: analyze_search_terms_def)

lemma analyze_search_terms_concat:
  "analyze_search_terms ts =
     (concat (map (\<lambda>t. fst (analyze_search_terms [t])) (take 15 ts)),
      concat (map (\<lambda>t. snd (analyze_search_terms [t])) (take 15 ts)))"
  unfolding analyze_search_terms_single
  by (simp add: analyze_search_terms_def search_terms_loop_acc)

lemma analyze_search_terms_split:
  assumes "i < length ts" and "i < 15"
  shows "analyze_search_terms ts =
     (fst (analyze_search_terms (take i ts)) @ fst (analyze_search_terms [ts ! i])
        @ fst (analyze_search_terms (drop (Suc i) (take 15 ts))),
      snd (analyze_search_terms (take i ts)) @ snd (analyze_search_terms [ts ! i])
        @ snd (analyze_search_terms (drop (Suc i) (take 15 ts))))"
proof -
  from assms have i: "i < length (take 15 ts)"
    by simp
  have parts: "take 15 ts = take i ts @ [ts ! i] @ drop (Suc i) (take 15 ts)"
    using id_take_nth_drop [OF i] assms by (simp add: min.absorb2)
  have m: "min 15 i = i"
    using assms by simp
  have pre: "analyze_search_terms (take i ts) =
     (concat (map (\<lambda>t. fst (analyze_search_terms [t])) (take i ts)),
      concat (map (\<lambda>t. snd (analyze_search_terms [t])) (take i ts)))"
    using analyze_search_terms_concat [of "take i ts"] by (simp add: m)
  have post: "analyze_search_terms (drop (Suc i) (take 15 ts)) =
     (concat (map (\<lambda>t. fst (analyze_search_terms [t])) (drop (Suc i) (take 15 ts))),
      concat (map (\<lambda>t. snd (analyze_search_terms [t])) (drop (Suc i) (take 15 ts))))"
    using analyze_search_terms_concat [of "drop (Suc i) (take 15 ts)"] by simp
  have "analyze_search_terms ts =
     (concat (map (\<lambda>t. fst (analyze_search_terms [t]))
                (take i ts @ [ts ! i] @ drop (Suc i) (take 15 ts))),
      concat (map (\<lambda>t. snd (analyze_search_terms [t]))
                (take i ts @ [ts ! i] @ drop (Suc i) (take 15 ts))))"
    using analyze_search_terms_concat [of ts] parts by simp
  then show ?thesis
    by (simp add: pre post)
qed

lemma low_conversion_single:
  assumes "\<not> (SearchTermData.conversions t = 0 \<and> 20 < cost t)"
    and "conversion_rate t = Some r" and "r \<noteq> 0" and "r < 1" and "50 < cost t"
  shows "\<exists>x a. analyze_search_terms [t] = ([x], [a]) \<and>
           type x = ''low_conversion_search_term'' \<and> severity x = ''low'' \<and>
           action_type a = ''review_search_term'' \<and> priority a = ''low'' \<and>
           related_issue_type a = ''low_conversion_search_term''"
  using assms by (simp add: analyze_search_terms_def search_term_step_def)

text \<open>
  Claim C4, amended. Among the first fifteen search terms, a term that rule 1 does not
  match and whose conversion rate is defined and not zero, below 1.0, with a cost above
  50, yields exactly one finding: an issue of type \<^verbatim>\<open>low_conversion_search_term\<close> and
  severity \<^verbatim>\<open>low\<close>, paired with a \<^verbatim>\<open>review_search_term\<close> action of priority
  \<^verbatim>\<open>low\<close>, placed between the findings of the terms before it and those of the
  processed terms after it.
\<close>

theorem low_conversion_search_term_emitted:
  assumes "i < length ts" and "i < 15"
    and "\<not> (SearchTermData.conversions (ts ! i) = 0 \<and> 20 < cost (ts ! i))"
    and "conversion_rate (ts ! i) = Some r" and "r \<noteq> 0"
    and "r < 1.0" and "50 < cost (ts ! i)"
  shows "\<exists>x a. analyze_search_terms [ts ! i] = ([x], [a]) \<and>
           type x = ''low_conversion_search_term'' \<and> severity x = ''low'' \<and>
           action_type a = ''review_search_term'' \<and> priority a = ''low'' \<and>
           related_issue_type a = ''low_conversion_search_term'' \<and>
           analyze_search_terms ts =
             (fst (analyze_search_terms (take i ts)) @ [x]
                @ fst (analyze_search_terms (drop (Suc i) (take 15 ts))),
              snd (analyze_search_terms (take i ts)) @ [a]
                @ snd (analyze_search_terms (drop (Suc i) (take 15 ts))))"
proof -
  from assms(6) have "r < 1" by simp
  from low_conversion_single [OF assms(3) assms(4) assms(5) this assms(7)]
  obtain x a where single: "analyze_search_terms [ts ! i] = ([x], [a])"
    and fields: "type x = ''low_conversion_search_term''" "severity x = ''low''"
      "action_type a = ''review_search_term''" "priority a = ''low''"
      "related_issue_type a = ''low_conversion_search_term''"
    by blast
  from analyze_search_terms_split [OF assms(1) assms(2)] single
  have "analyze_search_terms ts =
             (fst (analyze_search_terms (take i ts)) @ [x]
                @ fst (analyze_search_terms (drop (Suc i) (take 15 ts))),
              snd (analyze_search_terms (take i ts)) @ [a]
                @ snd (analyze_search_terms (drop (Suc i) (take 15 ts))))"
    by simp
  with single fields show ?thesis
    by simp
qed

text \<open>
  The guard \<^verbatim>\<open>term.conversion_rate and ...\<close> is false for a rate of 0.0: a term with
  one conversion, a cost of 60 and a conversion rate of 0.0 is not matched by rule 1,
  has a defined rate below 1.0 and a cost above 50, and yet produces no finding.
\<close>

theorem low_conversion_zero_rate_counterexample:
  "\<not> (SearchTermData.conversions
         \<lparr>search_term = ''shoes'', cost = 60, clicks = 10, conversions = 1,
           conversion_rate = Some 0\<rparr> = 0
       \<and> 20 < cost \<lparr>search_term = ''shoes'', cost = 60, clicks = 10, conversions = 1,
                    conversion_rate = Some 0\<rparr>)
   \<and> conversion_rate \<lparr>search_term = ''shoes'', cost = 60, clicks = 10, conversions = 1,
                       conversion_rate = Some 0\<rparr> = Some 0
   \<and> (0::rat) < 1.0
   \<and> 50 < cost \<lparr>search_term = ''shoes'', cost = 60, clicks = 10, conversions = 1,
                  conversion_rate = Some 0\<rparr>
   \<and> analyze_search_terms
        [\<lparr>search_term = ''shoes'', cost = 60, clicks = 10, conversions = 1,
          conversion_rate = Some 0\<rparr>] = ([], [])"
  by (simp add: analyze_search_terms_def search_term_step_def)

theorem low_conversion_search_term_emitted_witness:
  "map type (fst (analyze_search_terms
      [\<lparr>search_term = ''free'', cost = 21, clicks = 3, conversions = 0,
        conversion_rate = Some 0.5\<rparr>,
       \<lparr>search_term = ''shoes'', cost = 60, clicks = 200, conversions = 1,
        conversion_rate = Some 0.5\<rparr>]))
   = [''wasteful_search_term'', ''low_conversion_search_term'']"
proof -
  let ?t0 = "\<lparr>search_term = ''free'', cost = 21, clicks = 3, conversions = 0,
        conversion_rate = Some 0.5\<rparr>"
  let ?t1 = "\<lparr>search_term = ''shoes'', cost = 60, clicks = 200, conversions = 1,
        conversion_rate = Some 0.5\<rparr>"
  let ?ts = "[?t0, ?t1]"
  have h1: "1 < length ?ts" and h2: "(1::nat) < 15"
    and h3: "\<not> (SearchTermData.conversions (?ts ! 1) = 0 \<and> 20 < cost (?ts ! 1))"
    and h4: "conversion_rate (?ts ! 1) = Some 0.5" and h5: "(0.5::rat) \<noteq> 0"
    and h6: "(0.5::rat) < 1.0" and h7: "50 < cost (?ts ! 1)"
    by simp_all
  from low_conversion_search_term_emitted [OF h1 h2 h3 h4 h5 h6 h7]
  obtain x where "type x = ''low_conversion_search_term''"
    and "fst (analyze_search_terms ?ts) = fst (analyze_search_terms (take 1 ?ts)) @ [x]
           @ fst (analyze_search_terms (drop (Suc 1) (take 15 ?ts)))"
    by auto
  moreover have "map type (fst (analyze_search_terms (take 1 ?ts))) = [''wasteful_search_term'']"
    by (simp add: analyze_search_terms_def search_term_step_def)
  moreover have "fst (analyze_search_terms (drop (Suc 1) (take 15 ?ts))) = []"
    by (simp add: analyze_search_terms_def)
  ultimately show ?thesis
    by simp
qed

subsection \<open>The policy compliance detector\<close>

lemma policy_step_ok:
  assumes "has_required_keys r"
  shows "\<exists>x a. policy_step str r (iss, recs) = Inr (iss @ [x], recs @ [a]) \<and>
           type x = ''policy_limited_ad'' \<and> severity x = ''medium'' \<and> metadata x = r \<and>
           action_type a = ''fix_policy_issue'' \<and> priority a = ''medium'' \<and>
           related_issue_type a = ''policy_limited_ad''"
proof -
  from assms obtain v1 v2 v3 where "r ''ad_name'' = Some v1" "r ''campaign_name'' = Some v2"
    "r ''approval_status'' = Some v3"
    by (auto simp: has_required_keys_def required_keys_def)
  then show ?thesis
    by (simp add: policy_step_def getitem_def)
qed

lemma policy_step_missing:
  assumes "\<not> has_required_keys r"
  shows "\<exists>k \<in> set required_keys. policy_step str r acc = Inl (KeyError k)"
proof (cases acc)
  case (Pair iss recs)
  show ?thesis
  proof (cases "r ''ad_name''")
    case None
    then have "policy_step str r acc = Inl (KeyError ''ad_name'')"
      by (simp add: Pair policy_step_def getitem_def)
    then show ?thesis by (simp add: required_keys_def)
  next
    case ad: (Some v1)
    show ?thesis
    proof (cases "r ''campaign_name''")
      case None
      with ad have "policy_step str r acc = Inl (KeyError ''campaign_name'')"
        by (simp add: Pair policy_step_def getitem_def)
      then show ?thesis by (simp add: required_keys_def)
    next
      case camp: (Some v2)
      from assms ad camp have "r ''approval_status'' = None"
        by (auto simp: has_required_keys_def required_keys_def)
      with ad camp have "policy_step str r acc = Inl (KeyError ''approval_status'')"
        by (simp add: Pair policy_step_def getitem_def)
      then show ?thesis by (simp add: required_keys_def)
    qed
  qed
qed

lemma policy_loop_ok:
  assumes "\<forall>r \<in> set rs. has_required_keys r"
  shows "\<exists>iss' recs'. policy_loop str rs (iss, recs) = Inr (iss @ iss', recs @ recs') \<and>
           list_all2 (\<lambda>r x. type x = ''policy_limited_ad'' \<and> severity x = ''medium'' \<and>
                             metadata x = r) rs iss' \<and>
           list_all2 (\<lambda>r a. action_type a = ''fix_policy_issue'' \<and> priority a = ''medium'' \<and>
                             related_issue_type a = ''policy_limited_ad'') rs recs'"
  using assms
proof (induction rs arbitrary: iss recs)
  case Nil
  then show ?case by simp
next
  case (Cons r rs)
  then have "has_required_keys r" by simp
  from policy_step_ok [OF this, of str iss recs]
  obtain x a where step: "policy_step str r (iss, recs) = Inr (iss @ [x], recs @ [a])"
    and x: "type x = ''policy_limited_ad'' \<and> severity x = ''medium'' \<and> metadata x = r"
    and a: "action_type a = ''fix_policy_issue'' \<and> priority a = ''medium'' \<and>
            related_issue_type a = ''policy_limited_ad''"
    by blast
  from Cons.prems have "\<forall>r \<in> set rs. has_required_keys r" by simp
  from Cons.IH [OF this, of "iss @ [x]" "recs @ [a]"]
  obtain iss' recs' where
    loop: "policy_loop str rs (iss @ [x], recs @ [a]) = Inr ((iss @ [x]) @ iss', (recs @ [a]) @ recs')"
    and xs: "list_all2 (\<lambda>r x. type x = ''policy_limited_ad'' \<and> severity x = ''medium'' \<and>
                             metadata x = r) rs iss'"
    and as: "list_all2 (\<lambda>r a. action_type a = ''fix_policy_issue'' \<and> priority a = ''medium'' \<and>
                             related_issue_type a = ''policy_limited_ad'') rs recs'"
    by blast
  have "policy_loop str (r # rs) (iss, recs) = Inr (iss @ (x # iss'), recs @ (a # recs'))"
    using step loop by simp
  moreover have "list_all2 (\<lambda>r x. type x = ''policy_limited_ad'' \<and> severity x = ''medium'' \<and>
                             metadata x = r) (r # rs) (x # iss')"
    using x xs by simp
  moreover have "list_all2 (\<lambda>r a. action_type a = ''fix_policy_issue'' \<and> priority a = ''medium'' \<and>
                             related_issue_type a = ''policy_limited_ad'') (r # rs) (a # recs')"
    using a as by simp
  ultimately show ?case by blast
qed

lemma policy_loop_missing:
  assumes "\<exists>r \<in> set rs. \<not> has_required_keys r"
  shows "\<exists>k \<in> set required_keys. policy_loop str rs acc = Inl (KeyError k)"
  using assms
proof (induction rs arbitrary: acc)
  case Nil
  then show ?case by simp
next
  case (Cons r rs)
  show ?case
  proof (cases "has_required_keys r")
    case True
    obtain iss recs where acc: "acc = (iss, recs)" by (cases acc)
    from policy_step_ok [OF True, of str iss recs]
    obtain acc' where step: "policy_step str r acc = Inr acc'"
      unfolding acc by blast
    from Cons.prems True have "\<exists>r \<in> set rs. \<not> has_required_keys r" by auto
    from Cons.IH [OF this, of acc'] step show ?thesis by simp
  next
    case False
    from policy_step_missing [OF this, of str acc] show ?thesis by auto
  qed
qed

text \<open>
  Claim C6. \<^verbatim>\<open>analyze_policy_issues\<close> looks at the first ten records only. When each
  of them has the keys \<^verbatim>\<open>ad_name\<close>, \<^verbatim>\<open>campaign_name\<close> and \<^verbatim>\<open>approval_status\<close>, it
  returns one issue per record, in order, of type \<^verbatim>\<open>policy_limited_ad\<close> and severity
  \<^verbatim>\<open>medium\<close>, whose metadata is the record itself, and one \<^verbatim>\<open>fix_policy_issue\<close>
  action of priority \<^verbatim>\<open>medium\<close> per record; no other condition is tested. When one of
  the first ten records lacks a required key, the detector raises \<^verbatim>\<open>KeyError\<close> for
  one of the three keys instead of skipping the record.
\<close>

theorem analyze_policy_issues_first_ten:
  "analyze_policy_issues str rs = analyze_policy_issues str (take 10 rs) \<and>
   ((\<forall>r \<in> set (take 10 rs). has_required_keys r) \<longrightarrow>
      (\<exists>iss recs. analyze_policy_issues str rs = Inr (iss, recs) \<and>
         length iss = min 10 (length rs) \<and> length recs = min 10 (length rs) \<and>
         (\<forall>i < min 10 (length rs).
            type (iss ! i) = ''policy_limited_ad'' \<and> severity (iss ! i) = ''medium'' \<and>
            metadata (iss ! i) = rs ! i \<and>
            action_type (recs ! i) = ''fix_policy_issue'' \<and> priority (recs ! i) = ''medium'' \<and>
            related_issue_type (recs ! i) = ''policy_limited_ad''))) \<and>
   ((\<exists>r \<in> set (take 10 rs). \<not> has_required_keys r) \<longrightarrow>
      (\<exists>k \<in> set required_keys. analyze_policy_issues str rs = Inl (KeyError k)))"
proof (intro conjI impI)
  show "analyze_policy_issues str rs = analyze_policy_issues str (take 10 rs)"
    by (simp add: analyze_policy_issues_def)
next
  assume "\<forall>r \<in> set (take 10 rs). has_required_keys r"
  from policy_loop_ok [OF this, of str "[]" "[]"]
  obtain iss recs where res: "analyze_policy_issues str rs = Inr (iss, recs)"
    and xs: "list_all2 (\<lambda>r x. type x = ''policy_limited_ad'' \<and> severity x = ''medium'' \<and>
                             metadata x = r) (take 10 rs) iss"
    and as: "list_all2 (\<lambda>r a. action_type a = ''fix_policy_issue'' \<and> priority a = ''medium'' \<and>
                             related_issue_type a = ''policy_limited_ad'') (take 10 rs) recs"
    by (auto simp: analyze_policy_issues_def)
  from xs have len_iss: "length iss = min 10 (length rs)"
    by (simp add: list_all2_lengthD [symmetric] min.commute)
  from as have len_recs: "length recs = min 10 (length rs)"
    by (simp add: list_all2_lengthD [symmetric] min.commute)
  have "type (iss ! i) = ''policy_limited_ad'' \<and> severity (iss ! i) = ''medium'' \<and>
        metadata (iss ! i) = rs ! i \<and>
        action_type (recs ! i) = ''fix_policy_issue'' \<and> priority (recs ! i) = ''medium'' \<and>
        related_issue_type (recs ! i) = ''policy_limited_ad''"
    if "i < min 10 (length rs)" for i
  proof -
    from that have i: "i < length (take 10 rs)" by simp
    from list_all2_nthD [OF xs i] list_all2_nthD [OF as i] that show ?thesis
      by simp
  qed
  with res len_iss len_recs
  show "\<exists>iss recs. analyze_policy_issues str rs = Inr (iss, recs) \<and>
         length iss = min 10 (length rs) \<and> length recs = min 10 (length rs) \<and>
         (\<forall>i < min 10 (length rs).
            type (iss ! i) = ''policy_limited_ad'' \<and> severity (iss ! i) = ''medium'' \<and>
            metadata (iss ! i) = rs ! i \<and>
            action_type (recs ! i) = ''fix_policy_issue'' \<and> priority (recs ! i) = ''medium'' \<and>
            related_issue_type (recs ! i) = ''policy_limited_ad'')"
    by blast
next
  assume "\<exists>r \<in> set (take 10 rs). \<not> has_required_keys r"
  from policy_loop_missing [OF this, of str "([], [])"]
  show "\<exists>k \<in> set required_keys. analyze_policy_issues str rs = Inl (KeyError k)"
    by (simp add: analyze_policy_issues_def)
qed

theorem analyze_policy_issues_first_ten_witness:
  "(case analyze_policy_issues (\<lambda>v. case v of PStr s \<Rightarrow> s | _ \<Rightarrow> ''?'')
        [[''ad_name'' \<mapsto> PStr ''Summer sale'', ''campaign_name'' \<mapsto> PStr ''Brand'',
          ''approval_status'' \<mapsto> PStr ''APPROVED_LIMITED'', ''ad_id'' \<mapsto> PInt 7]] of
      Inl err \<Rightarrow> False
    | Inr (iss, recs) \<Rightarrow>
        length iss = 1 \<and> length recs = 1 \<and> type (iss ! 0) = ''policy_limited_ad'' \<and>
        metadata (iss ! 0) =
          [''ad_name'' \<mapsto> PStr ''Summer sale'', ''campaign_name'' \<mapsto> PStr ''Brand'',
           ''approval_status'' \<mapsto> PStr ''APPROVED_LIMITED'', ''ad_id'' \<mapsto> PInt 7]) \<and>
   analyze_policy_issues (\<lambda>v. case v of PStr s \<Rightarrow> s | _ \<Rightarrow> ''?'')
        [[''ad_name'' \<mapsto> PStr ''Summer sale'', ''campaign_name'' \<mapsto> PStr ''Brand'',
          ''approval_status'' \<mapsto> PStr ''APPROVED_LIMITED'', ''ad_id'' \<mapsto> PInt 7],
         [''ad_name'' \<mapsto> PStr ''Winter sale'', ''approval_status'' \<mapsto> PStr ''DISAPPROVED'']]
     = Inl (KeyError ''campaign_name'')"
proof -
  let ?str = "\<lambda>v. case v of PStr s \<Rightarrow> s | _ \<Rightarrow> ''?''"
  let ?good = "[''ad_name'' \<mapsto> PStr ''Summer sale'', ''campaign_name'' \<mapsto> PStr ''Brand'',
          ''approval_status'' \<mapsto> PStr ''APPROVED_LIMITED'', ''ad_id'' \<mapsto> PInt 7]"
  let ?bad = "[''ad_name'' \<mapsto> PStr ''Winter sale'', ''approval_status'' \<mapsto> PStr ''DISAPPROVED'']"
  have good: "has_required_keys ?good"
    by (simp add: has_required_keys_def required_keys_def)
  have bad: "\<not> has_required_keys ?bad"
    by (simp add: has_required_keys_def required_keys_def)
  have all_good: "\<forall>r \<in> set (take 10 [?good]). has_required_keys r"
    using good by simp
  have some_bad: "\<exists>r \<in> set (take 10 [?good, ?bad]). \<not> has_required_keys r"
    using bad by simp
  have zero: "(0::nat) < min 10 (length [?good])"
    by simp
  from analyze_policy_issues_first_ten [of ?str "[?good]"] all_good
  obtain iss recs where "analyze_policy_issues ?str [?good] = Inr (iss, recs)"
    and "length iss = min 10 (length [?good])" and "length recs = min 10 (length [?good])"
    and "\<forall>i < min 10 (length [?good]).
           type (iss ! i) = ''policy_limited_ad'' \<and> metadata (iss ! i) = [?good] ! i"
    by blast
  with zero have first: "case analyze_policy_issues ?str [?good] of
      Inl err \<Rightarrow> False
    | Inr (iss, recs) \<Rightarrow>
        length iss = 1 \<and> length recs = 1 \<and> type (iss ! 0) = ''policy_limited_ad'' \<and>
        metadata (iss ! 0) = ?good"
    by auto
  from analyze_policy_issues_first_ten [of ?str "[?good, ?bad]"] some_bad
  obtain k where "analyze_policy_issues ?str [?good, ?bad] = Inl (KeyError k)"
    by blast
  moreover have "analyze_policy_issues ?str [?good, ?bad] = Inl (KeyError ''campaign_name'')"
    by (simp add: analyze_policy_issues_def policy_step_def getitem_def)
  ultimately have second:
    "analyze_policy_issues ?str [?good, ?bad] = Inl (KeyError ''campaign_name'')"
    by simp
  from first second show ?thesis
    by (rule conjI)
qed

subsection \<open>Parallel lists of findings\<close>

lemma parallel_list_all2:
  "parallel iss recs \<longleftrightarrow> list_all2 (\<lambda>x a. related_issue_type a = type x) iss recs"
  by (auto simp: parallel_def list_all2_conv_all_nth)

lemma parallel_Nil: "parallel [] []"
  by (simp add: parallel_def)

lemma parallel_snoc:
  "parallel iss recs \<Longrightarrow> related_issue_type a = type x \<Longrightarrow> parallel (iss @ [x]) (recs @ [a])"
  by (simp add: parallel_list_all2 list_all2_appendI)

lemma parallel_map:
  assumes "parallel iss recs"
  shows "map related_issue_type recs = map type iss"
  using assms by (auto simp: parallel_def intro: nth_equalityI)

lemma product_step_parallel:
  assumes "parallel iss recs" and "product_step p (iss, recs) = (iss', recs')"
  shows "parallel iss' recs'"
proof -
  from assms(2) obtain x a where "iss' = iss @ [x]" "recs' = recs @ [a]"
    "related_issue_type a = type x"
    by (auto simp: product_step_def Let_def)
  with assms(1) show ?thesis
    by (simp add: parallel_snoc)
qed

lemma products_loop_parallel:
  assumes "parallel iss recs" and "products_loop ps (iss, recs) = (iss', recs')"
  shows "parallel iss' recs'"
  using assms
proof (induction ps arbitrary: iss recs)
  case Nil
  then show ?case by simp
next
  case (Cons p ps)
  obtain iss1 recs1 where step: "product_step p (iss, recs) = (iss1, recs1)"
    by (cases "product_step p (iss, recs)")
  from Cons.prems(1) step have "parallel iss1 recs1"
    by (rule product_step_parallel)
  moreover from Cons.prems(2) step have "products_loop ps (iss1, recs1) = (iss', recs')"
    by simp
  ultimately show ?case
    by (rule Cons.IH)
qed

lemma campaign_step_parallel:
  assumes "parallel iss recs" and "campaign_step avg c (iss, recs) = (iss', recs')"
  shows "parallel iss' recs'"
proof -
  from assms(2) consider "iss' = iss" "recs' = recs"
    | x a where "iss' = iss @ [x]" "recs' = recs @ [a]" "related_issue_type a = type x"
    by (auto simp: campaign_step_def split: if_splits option.splits)
  then show ?thesis
    using assms(1) by cases (simp_all add: parallel_snoc)
qed

lemma campaigns_loop_parallel:
  assumes "parallel iss recs" and "campaigns_loop avg cs (iss, recs) = (iss', recs')"
  shows "parallel iss' recs'"
  using assms
proof (induction cs arbitrary: iss recs)
  case Nil
  then show ?case by simp
next
  case (Cons c cs)
  obtain iss1 recs1 where step: "campaign_step avg c (iss, recs) = (iss1, recs1)"
    by (cases "campaign_step avg c (iss, recs)")
  from Cons.prems(1) step have "parallel iss1 recs1"
    by (rule campaign_step_parallel)
  moreover from Cons.prems(2) step have "campaigns_loop avg cs (iss1, recs1) = (iss', recs')"
    by simp
  ultimately show ?case
    by (rule Cons.IH)
qed

lemma search_term_step_parallel:
  assumes "parallel iss recs" and "search_term_step t (iss, recs) = (iss', recs')"
  shows "parallel iss' recs'"
proof -
  from assms(2) consider "iss' = iss" "recs' = recs"
    | x a where "iss' = iss @ [x]" "recs' = recs @ [a]" "related_issue_type a = type x"
    by (auto simp: search_term_step_def split: if_splits option.splits)
  then show ?thesis
    using assms(1) by cases (simp_all add: parallel_snoc)
qed

lemma search_terms_loop_parallel:
  assumes "parallel iss recs" and "search_terms_loop ts (iss, recs) = (iss', recs')"
  shows "parallel iss' recs'"
  using assms
proof (induction ts arbitrary: iss recs)
  case Nil
  then show ?case by simp
next
  case (Cons t ts)
  obtain iss1 recs1 where step: "search_term_step t (iss, recs) = (iss1, recs1)"
    by (cases "search_term_step t (iss, recs)")
  from Cons.prems(1) step have "parallel iss1 recs1"
    by (rule search_term_step_parallel)
  moreover from Cons.prems(2) step have "search_terms_loop ts (iss1, recs1) = (iss', recs')"
    by simp
  ultimately show ?case
    by (rule Cons.IH)
qed

lemma policy_step_parallel:
  assumes "parallel iss recs" and "policy_step str r (iss, recs) = Inr (iss', recs')"
  shows "parallel iss' recs'"
proof -
  from assms(2) obtain x a where "iss' = iss @ [x]" "recs' = recs @ [a]"
    "related_issue_type a = type x"
    by (auto simp: policy_step_def Let_def split: sum.splits)
  with assms(1) show ?thesis
    by (simp add: parallel_snoc)
qed

lemma policy_loop_parallel:
  assumes "parallel iss recs" and "policy_loop str rs (iss, recs) = Inr (iss', recs')"
  shows "parallel iss' recs'"
  using assms
proof (induction rs arbitrary: iss recs)
  case Nil
  then show ?case by simp
next
  case (Cons r rs)
  from Cons.prems(2) obtain iss1 recs1
    where step: "policy_step str r (iss, recs) = Inr (iss1, recs1)"
      and rest: "policy_loop str rs (iss1, recs1) = Inr (iss', recs')"
    by (auto split: sum.splits)
  from Cons.prems(1) step have "parallel iss1 recs1"
    by (rule policy_step_parallel)
  then show ?case
    using rest by (rule Cons.IH)
qed

lemma policy_step_acc:
  "policy_step str r (iss, recs) =
     (case policy_step str r ([], []) of
        Inl x \<Rightarrow> Inl x
      | Inr (xs, as) \<Rightarrow> Inr (iss @ xs, recs @ as))"
  by (simp add: policy_step_def getitem_def split: option.splits)

lemma policy_step_single:
  assumes "policy_step str r ([], []) = Inr (xs, as)"
  shows "\<exists>x a. xs = [x] \<and> as = [a]"
  using assms by (auto simp: policy_step_def getitem_def split: option.splits)

lemma analyze_policy_issues_single:
  "analyze_policy_issues str [r] = policy_step str r ([], [])"
  by (simp add: analyze_policy_issues_def split: sum.splits)

lemma policy_loop_items:
  assumes "policy_loop str rs (iss, recs) = Inr (iss', recs')"
  shows "\<exists>xs as. iss' = iss @ xs \<and> recs' = recs @ as \<and>
           length xs = length rs \<and> length as = length rs \<and>
           (\<forall>i < length rs. policy_step str (rs ! i) ([], []) = Inr ([xs ! i], [as ! i]))"
  using assms
proof (induction rs arbitrary: iss recs)
  case Nil
  then show ?case by simp
next
  case (Cons r rs)
  from Cons.prems obtain iss1 recs1
    where step: "policy_step str r (iss, recs) = Inr (iss1, recs1)"
      and rest: "policy_loop str rs (iss1, recs1) = Inr (iss', recs')"
    by (auto split: sum.splits)
  from step obtain ys bs where alone: "policy_step str r ([], []) = Inr (ys, bs)"
    and acc: "iss1 = iss @ ys" "recs1 = recs @ bs"
    by (subst (asm) policy_step_acc) (auto split: sum.splits)
  from policy_step_single [OF alone] obtain x a where one: "ys = [x]" "bs = [a]"
    by blast
  from Cons.IH [OF rest] obtain xs as where
    tl: "iss' = iss1 @ xs" "recs' = recs1 @ as" "length xs = length rs" "length as = length rs"
    and items: "\<forall>i < length rs. policy_step str (rs ! i) ([], []) = Inr ([xs ! i], [as ! i])"
    by blast
  have "policy_step str ((r # rs) ! i) ([], []) = Inr ([(x # xs) ! i], [(a # as) ! i])"
    if "i < length (r # rs)" for i
  proof (cases i)
    case 0
    with alone one show ?thesis by simp
  next
    case (Suc k)
    with that items show ?thesis by simp
  qed
  moreover have "iss' = iss @ (x # xs)" "recs' = recs @ (a # as)"
    using tl acc one by simp_all
  moreover have "length (x # xs) = length (r # rs)" "length (a # as) = length (r # rs)"
    using tl by simp_all
  ultimately show ?case by blast
qed

lemma analyze_policy_issues_items:
  assumes "analyze_policy_issues str rs = Inr (iss, recs)"
  shows "length iss = min 10 (length rs) \<and> length recs = min 10 (length rs) \<and>
         (\<forall>i < min 10 (length rs).
            analyze_policy_issues str [rs ! i] = Inr ([iss ! i], [recs ! i]))"
proof -
  from assms have "policy_loop str (take 10 rs) ([], []) = Inr (iss, recs)"
    by (simp add: analyze_policy_issues_def)
  from policy_loop_items [OF this]
  have len: "length iss = length (take 10 rs)" "length recs = length (take 10 rs)"
    and items: "\<forall>i < length (take 10 rs).
                  policy_step str (take 10 rs ! i) ([], []) = Inr ([iss ! i], [recs ! i])"
    by auto
  have "analyze_policy_issues str [rs ! i] = Inr ([iss ! i], [recs ! i])"
    if "i < min 10 (length rs)" for i
  proof -
    from that have "i < length (take 10 rs)" by simp
    with items have "policy_step str (take 10 rs ! i) ([], []) = Inr ([iss ! i], [recs ! i])"
      by blast
    with that show ?thesis
      by (simp add: analyze_policy_issues_single)
  qed
  with len show ?thesis
    by (simp add: min.commute)
qed

text \<open>
  Claim C7. Every detector returns two parallel lists: they have the same length, and
  the action at each position names the type of the issue at that position (for the
  policy detector, whenever it returns). Both lists are built item by item. For the
  three detectors that cannot raise, the result is the concatenation, in input order,
  of what the detector returns for each processed item alone. For the policy detector,
  whenever it returns, there is one position per processed record, and the issue and
  the action at position \<open>i\<close> are the one issue and the one action that the detector
  returns for the record at position \<open>i\<close> alone. So the issue and the action at one
  position stem from the same iteration.
\<close>

theorem detectors_parallel:
  "parallel (fst (analyze_disapproved_products ps)) (snd (analyze_disapproved_products ps)) \<and>
   parallel (fst (analyze_campaigns cs kp)) (snd (analyze_campaigns cs kp)) \<and>
   parallel (fst (analyze_search_terms ts)) (snd (analyze_search_terms ts)) \<and>
   (\<forall>iss recs. analyze_policy_issues str rs = Inr (iss, recs) \<longrightarrow>
      parallel iss recs \<and>
      length iss = min 10 (length rs) \<and> length recs = min 10 (length rs) \<and>
      (\<forall>i < min 10 (length rs).
         analyze_policy_issues str [rs ! i] = Inr ([iss ! i], [recs ! i]))) \<and>
   analyze_disapproved_products ps =
     (concat (map (\<lambda>p. fst (analyze_disapproved_products [p])) (take 10 ps)),
      concat (map (\<lambda>p. snd (analyze_disapproved_products [p])) (take 10 ps))) \<and>
   analyze_campaigns cs kp =
     (concat (map (\<lambda>c. fst (analyze_campaigns [c] kp)) cs),
      concat (map (\<lambda>c. snd (analyze_campaigns [c] kp)) cs)) \<and>
   analyze_search_terms ts =
     (concat (map (\<lambda>t. fst (analyze_search_terms [t])) (take 15 ts)),
      concat (map (\<lambda>t. snd (analyze_search_terms [t])) (take 15 ts)))"
proof (intro conjI)
  show "parallel (fst (analyze_disapproved_products ps)) (snd (analyze_disapproved_products ps))"
    using products_loop_parallel [OF parallel_Nil, of "take 10 ps"]
    by (simp add: analyze_disapproved_products_def prod_eq_iff)
  show "parallel (fst (analyze_campaigns cs kp)) (snd (analyze_campaigns cs kp))"
    using campaigns_loop_parallel [OF parallel_Nil, of "AccountKPIs.average_cpa kp" cs]
    by (simp add: analyze_campaigns_def prod_eq_iff)
  show "parallel (fst (analyze_search_terms ts)) (snd (analyze_search_terms ts))"
    using search_terms_loop_parallel [OF parallel_Nil, of "take 15 ts"]
    by (simp add: analyze_search_terms_def prod_eq_iff)
  show "analyze_disapproved_products ps =
     (concat (map (\<lambda>p. fst (analyze_disapproved_products [p])) (take 10 ps)),
      concat (map (\<lambda>p. snd (analyze_disapproved_products [p])) (take 10 ps)))"
    by (rule analyze_disapproved_products_concat)
  show "analyze_campaigns cs kp =
     (concat (map (\<lambda>c. fst (analyze_campaigns [c] kp)) cs),
      concat (map (\<lambda>c. snd (analyze_campaigns [c] kp)) cs))"
    by (rule analyze_campaigns_concat)
  show "analyze_search_terms ts =
     (concat (map (\<lambda>t. fst (analyze_search_terms [t])) (take 15 ts)),
      concat (map (\<lambda>t. snd (analyze_search_terms [t])) (take 15 ts)))"
    by (rule analyze_search_terms_concat)
  show "\<forall>iss recs. analyze_policy_issues str rs = Inr (iss, recs) \<longrightarrow>
      parallel iss recs \<and>
      length iss = min 10 (length rs) \<and> length recs = min 10 (length rs) \<and>
      (\<forall>i < min 10 (length rs).
         analyze_policy_issues str [rs ! i] = Inr ([iss ! i], [recs ! i]))"
  proof (intro allI impI)
    fix iss recs
    assume pol: "analyze_policy_issues str rs = Inr (iss, recs)"
    have "parallel iss recs"
      using policy_loop_parallel [OF parallel_Nil, of str "take 10 rs" iss recs] pol
      by (simp add: analyze_policy_issues_def)
    with analyze_policy_issues_items [OF pol]
    show "parallel iss recs \<and>
      length iss = min 10 (length rs) \<and> length recs = min 10 (length rs) \<and>
      (\<forall>i < min 10 (length rs).
         analyze_policy_issues str [rs ! i] = Inr ([iss ! i], [recs ! i]))"
      by simp
  qed
qed

theorem detectors_parallel_witness:
  "map related_issue_type (snd (analyze_campaigns
      [\<lparr>campaign_id = ''2'', campaign_name = ''Display'', spend = 51, conversions = 0, cpa = None\<rparr>,
       \<lparr>campaign_id = ''3'', campaign_name = ''Video'', spend = 500, conversions = 5, cpa = Some 100\<rparr>]
      \<lparr>total_spend = 551, total_conversions = 5, average_cpa = Some 40, roas = None,
        currency = ''USD''\<rparr>))
     = [''zero_conversion_campaign'', ''high_cpa_campaign''] \<and>
   (case analyze_policy_issues (\<lambda>v. case v of PStr s \<Rightarrow> s | _ \<Rightarrow> ''?'')
           [[''ad_name'' \<mapsto> PStr ''Summer sale'', ''campaign_name'' \<mapsto> PStr ''Brand'',
             ''approval_status'' \<mapsto> PStr ''APPROVED_LIMITED''],
            [''ad_name'' \<mapsto> PStr ''Winter sale'', ''campaign_name'' \<mapsto> PStr ''Brand'',
             ''approval_status'' \<mapsto> PStr ''DISAPPROVED'']] of
      Inl err \<Rightarrow> False
    | Inr (iss, recs) \<Rightarrow>
        map related_issue_type recs = map type iss \<and> length recs = 2 \<and>
        analyze_policy_issues (\<lambda>v. case v of PStr s \<Rightarrow> s | _ \<Rightarrow> ''?'')
           [[''ad_name'' \<mapsto> PStr ''Winter sale'', ''campaign_name'' \<mapsto> PStr ''Brand'',
             ''approval_status'' \<mapsto> PStr ''DISAPPROVED'']]
          = Inr ([iss ! 1], [recs ! 1]) \<and>
        RecommendedAction.description (recs ! 1)
          = ''Review and modify ad 'Winter sale' to comply with Google Ads policies'')"
proof -
  let ?cs = "[\<lparr>campaign_id = ''2'', campaign_name = ''Display'', spend = 51, conversions = 0, cpa = None\<rparr>,
       \<lparr>campaign_id = ''3'', campaign_name = ''Video'', spend = 500, conversions = 5, cpa = Some 100\<rparr>]"
  let ?kp = "\<lparr>total_spend = 551, total_conversions = 5, average_cpa = Some 40, roas = None,
        currency = ''USD''\<rparr>"
  let ?str = "\<lambda>v. case v of PStr s \<Rightarrow> s | _ \<Rightarrow> ''?''"
  let ?r1 = "[''ad_name'' \<mapsto> PStr ''Summer sale'', ''campaign_name'' \<mapsto> PStr ''Brand'',
             ''approval_status'' \<mapsto> PStr ''APPROVED_LIMITED'']"
  let ?r2 = "[''ad_name'' \<mapsto> PStr ''Winter sale'', ''campaign_name'' \<mapsto> PStr ''Brand'',
             ''approval_status'' \<mapsto> PStr ''DISAPPROVED'']"
  obtain iss recs where pol: "analyze_policy_issues ?str [?r1, ?r2] = Inr (iss, recs)"
    by (simp add: analyze_policy_issues_def policy_step_def getitem_def)
  have second_index: "(1::nat) < min 10 (length [?r1, ?r2])"
    by simp
  from detectors_parallel [of "[]" ?cs ?kp "[]" ?str "[?r1, ?r2]"] pol
  have camp: "parallel (fst (analyze_campaigns ?cs ?kp)) (snd (analyze_campaigns ?cs ?kp))"
    and par: "parallel iss recs"
    and len: "length recs = min 10 (length [?r1, ?r2])"
    and items: "\<forall>i < min 10 (length [?r1, ?r2]).
                  analyze_policy_issues ?str [[?r1, ?r2] ! i] = Inr ([iss ! i], [recs ! i])"
    by blast+
  from items second_index
  have item: "analyze_policy_issues ?str [?r2] = Inr ([iss ! 1], [recs ! 1])"
    by fastforce
  then have "map RecommendedAction.description
               (case analyze_policy_issues ?str [?r2] of Inl err \<Rightarrow> [] | Inr (xs, as) \<Rightarrow> as)
             = [RecommendedAction.description (recs ! 1)]"
    by simp
  moreover have "map RecommendedAction.description
               (case analyze_policy_issues ?str [?r2] of Inl err \<Rightarrow> [] | Inr (xs, as) \<Rightarrow> as)
             = [''Review and modify ad 'Winter sale' to comply with Google Ads policies'']"
    by (simp add: analyze_policy_issues_def policy_step_def getitem_def quoted_def)
  ultimately have descr: "RecommendedAction.description (recs ! 1)
          = ''Review and modify ad 'Winter sale' to comply with Google Ads policies''"
    by simp
  from camp par have "map related_issue_type (snd (analyze_campaigns ?cs ?kp))
               = map type (fst (analyze_campaigns ?cs ?kp))"
    and p2: "map related_issue_type recs = map type iss"
    by (simp_all add: parallel_map)
  moreover have "map type (fst (analyze_campaigns ?cs ?kp))
                   = [''zero_conversion_campaign'', ''high_cpa_campaign'']"
    by (simp add: analyze_campaigns_def campaign_step_def)
  ultimately have first: "map related_issue_type (snd (analyze_campaigns ?cs ?kp))
                   = [''zero_conversion_campaign'', ''high_cpa_campaign'']"
    by simp
  from pol p2 len item descr have second: "case analyze_policy_issues ?str [?r1, ?r2] of
      Inl err \<Rightarrow> False
    | Inr (iss, recs) \<Rightarrow>
        map related_issue_type recs = map type iss \<and> length recs = 2 \<and>
        analyze_policy_issues ?str [?r2] = Inr ([iss ! 1], [recs ! 1]) \<and>
        RecommendedAction.description (recs ! 1)
          = ''Review and modify ad 'Winter sale' to comply with Google Ads policies''"
    by simp
  from first second show ?thesis
    by (rule conjI)
qed

subsection \<open>The aggregator's sort\<close>

lemma severity_rank_cases:
  "severity_rank x =
     (if severity x = ''high'' then 0 else if severity x = ''medium'' then 1
      else if severity x = ''low'' then 2 else 3)"
  by (simp add: severity_rank_def dict_get_def severity_order_def)

lemma priority_rank_cases:
  "priority_rank a =
     (if priority a = ''high'' then 0 else if priority a = ''medium'' then 1
      else if priority a = ''low'' then 2 else 3)"
  by (simp add: priority_rank_def dict_get_def priority_order_def)

lemma assemble_Inr:
  assumes "assemble str d kp cs ts rs ps = Inr resp"
  shows "\<exists>pol_iss pol_recs. analyze_policy_issues str rs = Inr (pol_iss, pol_recs) \<and>
           top_issues resp =
             sort_issues (fst (analyze_disapproved_products ps) @ fst (analyze_campaigns cs kp)
                          @ fst (analyze_search_terms ts) @ pol_iss) \<and>
           recommended_actions resp =
             sort_recommendations (snd (analyze_disapproved_products ps)
                                   @ snd (analyze_campaigns cs kp)
                                   @ snd (analyze_search_terms ts) @ pol_recs)"
  using assms
  by (auto simp: assemble_def Let_def split_beta split: sum.splits)

lemma sorted_unknown_last:
  assumes "sorted (map rank xs)" and "\<And>x. rank x \<le> (3::nat)"
    and "i < j" and "j < length xs" and "rank (xs ! i) = 3"
  shows "rank (xs ! j) = 3"
proof -
  from assms(1,3,4) have "map rank xs ! i \<le> map rank xs ! j"
    by (simp add: sorted_iff_nth_mono)
  with assms(3,4,5) have "3 \<le> rank (xs ! j)"
    by simp
  with assms(2) [of "xs ! j"] show ?thesis
    by simp
qed

text \<open>
  Claim C3. The aggregated issues are the issues of the four detectors, concatenated in
  the order products, campaigns, search terms, policy, and then sorted by severity rank;
  the actions likewise by priority rank. The rank is 0 for \<^verbatim>\<open>high\<close>, 1 for
  \<^verbatim>\<open>medium\<close>, 2 for \<^verbatim>\<open>low\<close> and 3 for any other token, so sorting cannot fail. The
  sorted list is ordered by rank, is a permutation of the input, and is stable: for
  every rank, the findings of that rank appear in the order in which they were emitted.
  A finding with an unrecognized token is followed only by findings with unrecognized
  tokens.
\<close>

theorem aggregator_stable_sort:
  "(\<forall>resp. assemble str d kp cs ts rs ps = Inr resp \<longrightarrow>
      (\<exists>pol_iss pol_recs. analyze_policy_issues str rs = Inr (pol_iss, pol_recs) \<and>
         top_issues resp =
           sort_issues (fst (analyze_disapproved_products ps) @ fst (analyze_campaigns cs kp)
                        @ fst (analyze_search_terms ts) @ pol_iss) \<and>
         recommended_actions resp =
           sort_recommendations (snd (analyze_disapproved_products ps)
                                 @ snd (analyze_campaigns cs kp)
                                 @ snd (analyze_search_terms ts) @ pol_recs))) \<and>
   severity_rank x =
     (if severity x = ''high'' then 0 else if severity x = ''medium'' then 1
      else if severity x = ''low'' then 2 else 3) \<and>
   priority_rank a =
     (if priority a = ''high'' then 0 else if priority a = ''medium'' then 1
      else if priority a = ''low'' then 2 else 3) \<and>
   sorted (map severity_rank (sort_issues iss)) \<and>
   mset (sort_issues iss) = mset iss \<and>
   (\<forall>k. filter (\<lambda>y. severity_rank y = k) (sort_issues iss)
          = filter (\<lambda>y. severity_rank y = k) iss) \<and>
   sorted (map priority_rank (sort_recommendations recs)) \<and>
   mset (sort_recommendations recs) = mset recs \<and>
   (\<forall>k. filter (\<lambda>b. priority_rank b = k) (sort_recommendations recs)
          = filter (\<lambda>b. priority_rank b = k) recs) \<and>
   (\<forall>i j. i < j \<and> j < length iss \<and>
           severity (sort_issues iss ! i) \<notin> {''high'', ''medium'', ''low''} \<longrightarrow>
           severity (sort_issues iss ! j) \<notin> {''high'', ''medium'', ''low''}) \<and>
   (\<forall>i j. i < j \<and> j < length recs \<and>
           priority (sort_recommendations recs ! i) \<notin> {''high'', ''medium'', ''low''} \<longrightarrow>
           priority (sort_recommendations recs ! j) \<notin> {''high'', ''medium'', ''low''})"
proof (intro conjI allI impI)
  fix resp
  assume "assemble str d kp cs ts rs ps = Inr resp"
  then show "\<exists>pol_iss pol_recs. analyze_policy_issues str rs = Inr (pol_iss, pol_recs) \<and>
         top_issues resp =
           sort_issues (fst (analyze_disapproved_products ps) @ fst (analyze_campaigns cs kp)
                        @ fst (analyze_search_terms ts) @ pol_iss) \<and>
         recommended_actions resp =
           sort_recommendations (snd (analyze_disapproved_products ps)
                                 @ snd (analyze_campaigns cs kp)
                                 @ snd (analyze_search_terms ts) @ pol_recs)"
    by (rule assemble_Inr)
next
  show "severity_rank x =
     (if severity x = ''high'' then 0 else if severity x = ''medium'' then 1
      else if severity x = ''low'' then 2 else 3)"
    by (rule severity_rank_cases)
next
  show "priority_rank a =
     (if priority a = ''high'' then 0 else if priority a = ''medium'' then 1
      else if priority a = ''low'' then 2 else 3)"
    by (rule priority_rank_cases)
next
  show "sorted (map severity_rank (sort_issues iss))"
    by (simp add: sort_issues_def)
next
  show "mset (sort_issues iss) = mset iss"
    by (simp add: sort_issues_def)
next
  fix k
  show "filter (\<lambda>y. severity_rank y = k) (sort_issues iss)
          = filter (\<lambda>y. severity_rank y = k) iss"
    by (simp add: sort_issues_def sort_key_stable)
next
  show "sorted (map priority_rank (sort_recommendations recs))"
    by (simp add: sort_recommendations_def)
next
  show "mset (sort_recommendations recs) = mset recs"
    by (simp add: sort_recommendations_def)
next
  fix k
  show "filter (\<lambda>b. priority_rank b = k) (sort_recommendations recs)
          = filter (\<lambda>b. priority_rank b = k) recs"
    by (simp add: sort_recommendations_def sort_key_stable)
next
  fix i j
  assume h: "i < j \<and> j < length iss \<and>
           severity (sort_issues iss ! i) \<notin> {''high'', ''medium'', ''low''}"
  have "severity_rank (sort_issues iss ! j) = 3"
  proof (rule sorted_unknown_last [of severity_rank "sort_issues iss" i j])
    show "sorted (map severity_rank (sort_issues iss))"
      by (simp add: sort_issues_def)
    show "severity_rank y \<le> 3" for y
      by (simp add: severity_rank_cases)
    show "i < j" using h by simp
    show "j < length (sort_issues iss)" using h by (simp add: sort_issues_def)
    show "severity_rank (sort_issues iss ! i) = 3"
      using h by (simp add: severity_rank_cases)
  qed
  then show "severity (sort_issues iss ! j) \<notin> {''high'', ''medium'', ''low''}"
    by (simp add: severity_rank_cases split: if_splits)
next
  fix i j
  assume h: "i < j \<and> j < length recs \<and>
           priority (sort_recommendations recs ! i) \<notin> {''high'', ''medium'', ''low''}"
  have "priority_rank (sort_recommendations recs ! j) = 3"
  proof (rule sorted_unknown_last [of priority_rank "sort_recommendations recs" i j])
    show "sorted (map priority_rank (sort_recommendations recs))"
      by (simp add: sort_recommendations_def)
    show "priority_rank y \<le> 3" for y
      by (simp add: priority_rank_cases)
    show "i < j" using h by simp
    show "j < length (sort_recommendations recs)" using h by (simp add: sort_recommendations_def)
    show "priority_rank (sort_recommendations recs ! i) = 3"
      using h by (simp add: priority_rank_cases)
  qed
  then show "priority (sort_recommendations recs ! j) \<notin> {''high'', ''medium'', ''low''}"
    by (simp add: priority_rank_cases split: if_splits)
qed

theorem aggregator_stable_sort_witness:
  "(case assemble (\<lambda>v. case v of PStr s \<Rightarrow> s | _ \<Rightarrow> ''?'') ''7d''
          \<lparr>total_spend = 551, total_conversions = 5, average_cpa = Some 40, roas = None,
            currency = ''USD''\<rparr>
          [\<lparr>campaign_id = ''3'', campaign_name = ''Video'', spend = 500, conversions = 5,
            cpa = Some 100\<rparr>,
           \<lparr>campaign_id = ''2'', campaign_name = ''Display'', spend = 51, conversions = 0,
            cpa = None\<rparr>]
          [\<lparr>search_term = ''shoes'', cost = 60, clicks = 200, conversions = 1,
            conversion_rate = Some 0.5\<rparr>,
           \<lparr>search_term = ''free'', cost = 21, clicks = 3, conversions = 0,
            conversion_rate = None\<rparr>]
          [[''ad_name'' \<mapsto> PStr ''Summer sale'', ''campaign_name'' \<mapsto> PStr ''Brand'',
            ''approval_status'' \<mapsto> PStr ''APPROVED_LIMITED'']]
          [\<lparr>product_id = ''5521'', title = ''Headphones'', issues = [''Invalid GTIN'']\<rparr>] of
      Inl err \<Rightarrow> False
    | Inr resp \<Rightarrow>
        map type (top_issues resp) =
          [''disapproved_product'', ''zero_conversion_campaign'', ''high_cpa_campaign'',
           ''wasteful_search_term'', ''policy_limited_ad'', ''low_conversion_search_term'']) \<and>
   map Issue.description (sort_issues
      [\<lparr>type = ''t'', severity = ''medium'', description = ''first'', metadata = Map.empty\<rparr>,
       \<lparr>type = ''t'', severity = ''high'', description = ''second'', metadata = Map.empty\<rparr>,
       \<lparr>type = ''t'', severity = ''urgent'', description = ''third'', metadata = Map.empty\<rparr>,
       \<lparr>type = ''t'', severity = ''high'', description = ''fourth'', metadata = Map.empty\<rparr>,
       \<lparr>type = ''t'', severity = ''low'', description = ''fifth'', metadata = Map.empty\<rparr>])
     = [''second'', ''fourth'', ''first'', ''fifth'', ''third'']"
proof -
  let ?str = "\<lambda>v. case v of PStr s \<Rightarrow> s | _ \<Rightarrow> ''?''"
  let ?kp = "\<lparr>total_spend = 551, total_conversions = 5, average_cpa = Some 40, roas = None,
            currency = ''USD''\<rparr>"
  let ?cs = "[\<lparr>campaign_id = ''3'', campaign_name = ''Video'', spend = 500, conversions = 5,
            cpa = Some 100\<rparr>,
           \<lparr>campaign_id = ''2'', campaign_name = ''Display'', spend = 51, conversions = 0,
            cpa = None\<rparr>]"
  let ?ts = "[\<lparr>search_term = ''shoes'', cost = 60, clicks = 200, conversions = 1,
            conversion_rate = Some 0.5\<rparr>,
           \<lparr>search_term = ''free'', cost = 21, clicks = 3, conversions = 0,
            conversion_rate = None\<rparr>]"
  let ?rs = "[[''ad_name'' \<mapsto> PStr ''Summer sale'', ''campaign_name'' \<mapsto> PStr ''Brand'',
            ''approval_status'' \<mapsto> PStr ''APPROVED_LIMITED'']]"
  let ?ps = "[\<lparr>product_id = ''5521'', title = ''Headphones'', issues = [''Invalid GTIN'']\<rparr>]"
  obtain pol_iss pol_recs where pol: "analyze_policy_issues ?str ?rs = Inr (pol_iss, pol_recs)"
    and pol_types: "map type pol_iss = [''policy_limited_ad'']"
    and pol_sev: "map severity pol_iss = [''medium'']"
    by (simp add: analyze_policy_issues_def policy_step_def getitem_def)
  obtain resp where resp: "assemble ?str ''7d'' ?kp ?cs ?ts ?rs ?ps = Inr resp"
    using pol by (simp add: assemble_def Let_def split_beta)
  from aggregator_stable_sort [of ?str "''7d''" ?kp ?cs ?ts ?rs ?ps] resp pol
  have sorted_eq: "top_issues resp =
           sort_issues (fst (analyze_disapproved_products ?ps) @ fst (analyze_campaigns ?cs ?kp)
                        @ fst (analyze_search_terms ?ts) @ pol_iss)"
    by auto
  obtain p1 where prod: "fst (analyze_disapproved_products ?ps) = [p1]"
    and p1: "type p1 = ''disapproved_product''" "severity p1 = ''high''"
    by (simp add: analyze_disapproved_products_def product_step_def)
  obtain c1 c2 where camp: "fst (analyze_campaigns ?cs ?kp) = [c1, c2]"
    and c1: "type c1 = ''high_cpa_campaign''" "severity c1 = ''medium''"
    and c2: "type c2 = ''zero_conversion_campaign''" "severity c2 = ''high''"
    by (simp add: analyze_campaigns_def campaign_step_def)
  obtain t1 t2 where terms: "fst (analyze_search_terms ?ts) = [t1, t2]"
    and t1: "type t1 = ''low_conversion_search_term''" "severity t1 = ''low''"
    and t2: "type t2 = ''wasteful_search_term''" "severity t2 = ''medium''"
    by (simp add: analyze_search_terms_def search_term_step_def)
  from pol_types pol_sev obtain q1 where pol1: "pol_iss = [q1]"
    and q1: "type q1 = ''policy_limited_ad''" "severity q1 = ''medium''"
    by (cases pol_iss) auto
  have "map type (top_issues resp) =
          [''disapproved_product'', ''zero_conversion_campaign'', ''high_cpa_campaign'',
           ''wasteful_search_term'', ''policy_limited_ad'', ''low_conversion_search_term'']"
    unfolding sorted_eq prod camp terms pol1
    by (simp add: sort_issues_def severity_rank_cases p1 c1 c2 t1 t2 q1)
  with resp have first: "case assemble ?str ''7d'' ?kp ?cs ?ts ?rs ?ps of
      Inl err \<Rightarrow> False
    | Inr resp \<Rightarrow>
        map type (top_issues resp) =
          [''disapproved_product'', ''zero_conversion_campaign'', ''high_cpa_campaign'',
           ''wasteful_search_term'', ''policy_limited_ad'', ''low_conversion_search_term'']"
    by simp
  have second: "map Issue.description (sort_issues
      [\<lparr>type = ''t'', severity = ''medium'', description = ''first'', metadata = Map.empty\<rparr>,
       \<lparr>type = ''t'', severity = ''high'', description = ''second'', metadata = Map.empty\<rparr>,
       \<lparr>type = ''t'', severity = ''urgent'', description = ''third'', metadata = Map.empty\<rparr>,
       \<lparr>type = ''t'', severity = ''high'', description = ''fourth'', metadata = Map.empty\<rparr>,
       \<lparr>type = ''t'', severity = ''low'', description = ''fifth'', metadata = Map.empty\<rparr>])
     = [''second'', ''fourth'', ''first'', ''fifth'', ''third'']"
    by (simp add: sort_issues_def severity_rank_cases)
  from first second show ?thesis
    by (rule conjI)
qed

subsection \<open>The orchestrator\<close>

lemma build_live_result:
  "fst (build_live e c d) =
     (case ads_get_account_kpis e c d of
        Inl err \<Rightarrow> Inl err
      | Inr kp \<Rightarrow>
     (case ads_get_campaign_kpis e c d of
        Inl err \<Rightarrow> Inl err
      | Inr cs \<Rightarrow>
     (case ads_get_search_terms e c d 10.0 of
        Inl err \<Rightarrow> Inl err
      | Inr ts \<Rightarrow>
     (case ads_get_policy_issues e c of
        Inl err \<Rightarrow> Inl err
      | Inr rs \<Rightarrow>
     (case mc_get_disapproved_products e of
        Inl err \<Rightarrow> Inl err
      | Inr ps \<Rightarrow> assemble (py_str e) d kp cs ts rs ps)))))"
  by (simp add: build_live_def bind_io_def call_def lift_def split: sum.splits prod.splits)

lemma assemble_raises:
  "analyze_policy_issues str rs = Inl err \<Longrightarrow> assemble str d kp cs ts rs ps = Inl err"
  by (simp add: assemble_def Let_def split_beta)

lemma build_live_raises:
  assumes "(\<exists>err. ads_get_account_kpis e c d = Inl err) \<or>
           (\<exists>err. ads_get_campaign_kpis e c d = Inl err) \<or>
           (\<exists>err. ads_get_search_terms e c d 10.0 = Inl err) \<or>
           (\<exists>err. ads_get_policy_issues e c = Inl err) \<or>
           (\<exists>err. mc_get_disapproved_products e = Inl err) \<or>
           (\<exists>rs err. ads_get_policy_issues e c = Inr rs \<and>
                      analyze_policy_issues (py_str e) rs = Inl err)"
  shows "\<exists>err. fst (build_live e c d) = Inl err"
  using assms
  by (auto simp: build_live_result assemble_raises split: sum.splits)

lemma build_snapshot_live:
  assumes "\<not> no_developer_token e"
  shows "build_snapshot e c d =
           (case fst (build_live e c d) of
              Inr resp \<Rightarrow> (Inr resp, snd (build_live e c d))
            | Inl err \<Rightarrow> handler e c d err (snd (build_live e c d)))"
  using assms by (simp add: build_snapshot_def split: prod.splits sum.splits)

lemma handler_handled:
  assumes "handled e err"
  shows "\<exists>s. exn_str err = Inr s \<and>
           handler e c d err tr = (Inr (build_demo_snapshot c d), tr @ [Printed (fallback_message s)])"
  using assms by (auto simp: handled_def handler_def split: sum.splits)

lemma handler_raises:
  assumes "fst (handler e c d err tr) = Inl x"
  shows "(\<not> is_Exception err \<and> x = err) \<or>
         (is_Exception err \<and> exn_str err = Inl x) \<or>
         (is_Exception err \<and> (\<exists>s. exn_str err = Inr s \<and> print_raises e (fallback_message s) = Some x))"
  using assms by (auto simp: handler_def split: if_splits sum.splits option.splits)

lemma handler_not_handled:
  assumes "\<not> handled e err"
  shows "\<exists>x. fst (handler e c d err tr) = Inl x"
  using assms by (auto simp: handled_def handler_def split: sum.splits option.splits)

text \<open>
  Claim C1, amended. When a developer token is configured and a provider call or a
  detector raises, the exception that leaves the \<^verbatim>\<open>try\<close> block is that of the first
  failing call, in the order account KPIs, campaign KPIs, search terms, policy issues,
  disapproved products, policy detector. If it is an instance of \<^verbatim>\<open>Exception\<close> and the
  handler's own \<^verbatim>\<open>str(e)\<close> and \<^verbatim>\<open>print\<close> do not raise, \<^verbatim>\<open>build_snapshot\<close> prints the
  message and returns the fallback report \<^verbatim>\<open>build_demo_snapshot(customer_id, date_range)\<close>.
  Otherwise \<^verbatim>\<open>build_snapshot\<close> raises, and these are the only ways in which it raises:
  an exception that is not an instance of \<^verbatim>\<open>Exception\<close> leaves the \<^verbatim>\<open>try\<close> block and
  propagates, or \<^verbatim>\<open>str(e)\<close> or \<^verbatim>\<open>print\<close> raises inside the handler.
\<close>

theorem build_snapshot_fallback_on_error:
  "fst (build_live e c d) =
     (case ads_get_account_kpis e c d of
        Inl err \<Rightarrow> Inl err
      | Inr kp \<Rightarrow>
     (case ads_get_campaign_kpis e c d of
        Inl err \<Rightarrow> Inl err
      | Inr cs \<Rightarrow>
     (case ads_get_search_terms e c d 10.0 of
        Inl err \<Rightarrow> Inl err
      | Inr ts \<Rightarrow>
     (case ads_get_policy_issues e c of
        Inl err \<Rightarrow> Inl err
      | Inr rs \<Rightarrow>
     (case mc_get_disapproved_products e of
        Inl err \<Rightarrow> Inl err
      | Inr ps \<Rightarrow> assemble (py_str e) d kp cs ts rs ps))))) \<and>
   (\<not> no_developer_token e \<and>
      ((\<exists>err. ads_get_account_kpis e c d = Inl err) \<or>
       (\<exists>err. ads_get_campaign_kpis e c d = Inl err) \<or>
       (\<exists>err. ads_get_search_terms e c d 10.0 = Inl err) \<or>
       (\<exists>err. ads_get_policy_issues e c = Inl err) \<or>
       (\<exists>err. mc_get_disapproved_products e = Inl err) \<or>
       (\<exists>rs err. ads_get_policy_issues e c = Inr rs \<and>
                  analyze_policy_issues (py_str e) rs = Inl err))
    \<longrightarrow> (\<exists>err. fst (build_live e c d) = Inl err)) \<and>
   (\<not> no_developer_token e \<and> fst (build_live e c d) = Inl err \<and> handled e err
    \<longrightarrow> fst (build_snapshot e c d) = Inr (build_demo_snapshot c d) \<and>
        (\<exists>s. exn_str err = Inr s \<and>
              snd (build_snapshot e c d)
                = snd (build_live e c d) @ [Printed (fallback_message s)])) \<and>
   (\<not> no_developer_token e \<and> fst (build_live e c d) = Inl err \<and> \<not> handled e err
    \<longrightarrow> (\<exists>x. fst (build_snapshot e c d) = Inl x)) \<and>
   (fst (build_snapshot e c d) = Inl x
    \<longrightarrow> \<not> no_developer_token e \<and>
        (\<exists>err. fst (build_live e c d) = Inl err \<and>
           ((\<not> is_Exception err \<and> x = err) \<or>
            (is_Exception err \<and> exn_str err = Inl x) \<or>
            (is_Exception err \<and>
               (\<exists>s. exn_str err = Inr s \<and> print_raises e (fallback_message s) = Some x)))))"
proof (intro conjI impI)
  show "fst (build_live e c d) =
     (case ads_get_account_kpis e c d of
        Inl err \<Rightarrow> Inl err
      | Inr kp \<Rightarrow>
     (case ads_get_campaign_kpis e c d of
        Inl err \<Rightarrow> Inl err
      | Inr cs \<Rightarrow>
     (case ads_get_search_terms e c d 10.0 of
        Inl err \<Rightarrow> Inl err
      | Inr ts \<Rightarrow>
     (case ads_get_policy_issues e c of
        Inl err \<Rightarrow> Inl err
      | Inr rs \<Rightarrow>
     (case mc_get_disapproved_products e of
        Inl err \<Rightarrow> Inl err
      | Inr ps \<Rightarrow> assemble (py_str e) d kp cs ts rs ps)))))"
    by (rule build_live_result)
next
  assume "\<not> no_developer_token e \<and>
      ((\<exists>err. ads_get_account_kpis e c d = Inl err) \<or>
       (\<exists>err. ads_get_campaign_kpis e c d = Inl err) \<or>
       (\<exists>err. ads_get_search_terms e c d 10.0 = Inl err) \<or>
       (\<exists>err. ads_get_policy_issues e c = Inl err) \<or>
       (\<exists>err. mc_get_disapproved_products e = Inl err) \<or>
       (\<exists>rs err. ads_get_policy_issues e c = Inr rs \<and>
                  analyze_policy_issues (py_str e) rs = Inl err))"
  then show "\<exists>err. fst (build_live e c d) = Inl err"
    using build_live_raises [of e c d] by blast
next
  assume h: "\<not> no_developer_token e \<and> fst (build_live e c d) = Inl err \<and> handled e err"
  from h handler_handled [of e err c d "snd (build_live e c d)"]
  obtain s where s: "exn_str err = Inr s"
    and res: "handler e c d err (snd (build_live e c d))
                = (Inr (build_demo_snapshot c d),
                   snd (build_live e c d) @ [Printed (fallback_message s)])"
    by blast
  from h res have all: "build_snapshot e c d
                = (Inr (build_demo_snapshot c d),
                   snd (build_live e c d) @ [Printed (fallback_message s)])"
    by (simp add: build_snapshot_live)
  then show "fst (build_snapshot e c d) = Inr (build_demo_snapshot c d)"
    by simp
  from all s show "\<exists>s. exn_str err = Inr s \<and>
              snd (build_snapshot e c d)
                = snd (build_live e c d) @ [Printed (fallback_message s)]"
    by simp
next
  assume h: "\<not> no_developer_token e \<and> fst (build_live e c d) = Inl err \<and> \<not> handled e err"
  with handler_not_handled [of e err c d "snd (build_live e c d)"]
  show "\<exists>x. fst (build_snapshot e c d) = Inl x"
    by (simp add: build_snapshot_live)
next
  assume raised: "fst (build_snapshot e c d) = Inl x"
  then show "\<not> no_developer_token e"
    by (auto simp: build_snapshot_def ret_def)
  with raised obtain err where err: "fst (build_live e c d) = Inl err"
    and "fst (handler e c d err (snd (build_live e c d))) = Inl x"
    by (auto simp: build_snapshot_live split: sum.splits)
  with handler_raises [of e c d err "snd (build_live e c d)" x]
  show "\<exists>err. fst (build_live e c d) = Inl err \<and>
           ((\<not> is_Exception err \<and> x = err) \<or>
            (is_Exception err \<and> exn_str err = Inl x) \<or>
            (is_Exception err \<and>
               (\<exists>s. exn_str err = Inr s \<and> print_raises e (fallback_message s) = Some x)))"
    by blast
qed

text \<open>
  The claim as stated fails. With a token configured and the search-terms provider
  raising an ordinary error, a \<^verbatim>\<open>print\<close> that fails on a broken output stream makes
  \<^verbatim>\<open>build_snapshot\<close> raise \<^verbatim>\<open>OSError\<close> to its caller; and a \<^verbatim>\<open>KeyboardInterrupt\<close> raised
  during the provider call passes \<^verbatim>\<open>except Exception\<close> and reaches the caller.
\<close>

theorem build_snapshot_propagates_counterexample:
  "\<not> no_developer_token
       \<lparr>google_ads_developer_token = Some ''token'',
         ads_get_account_kpis = (\<lambda>c d. Inr \<lparr>total_spend = 10, total_conversions = 1,
            average_cpa = Some 10, roas = None, currency = ''USD''\<rparr>),
         ads_get_campaign_kpis = (\<lambda>c d. Inr []),
         ads_get_search_terms = (\<lambda>c d m. Inl (ProviderError ''quota exceeded'')),
         ads_get_policy_issues = (\<lambda>c. Inr []),
         mc_get_disapproved_products = Inr [],
         py_str = (\<lambda>v. ''?''),
         print_raises = (\<lambda>msg. Some (OSError ''Broken pipe''))\<rparr> \<and>
   build_snapshot
     \<lparr>google_ads_developer_token = Some ''token'',
       ads_get_account_kpis = (\<lambda>c d. Inr \<lparr>total_spend = 10, total_conversions = 1,
          average_cpa = Some 10, roas = None, currency = ''USD''\<rparr>),
       ads_get_campaign_kpis = (\<lambda>c d. Inr []),
       ads_get_search_terms = (\<lambda>c d m. Inl (ProviderError ''quota exceeded'')),
       ads_get_policy_issues = (\<lambda>c. Inr []),
       mc_get_disapproved_products = Inr [],
       py_str = (\<lambda>v. ''?''),
       print_raises = (\<lambda>msg. Some (OSError ''Broken pipe''))\<rparr> ''123'' ''7d''
   = (Inl (OSError ''Broken pipe''),
      [Called ''ads_get_account_kpis'', Called ''ads_get_campaign_kpis'',
       Called ''ads_get_search_terms'']) \<and>
   build_snapshot
     \<lparr>google_ads_developer_token = Some ''token'',
       ads_get_account_kpis = (\<lambda>c d. Inr \<lparr>total_spend = 10, total_conversions = 1,
          average_cpa = Some 10, roas = None, currency = ''USD''\<rparr>),
       ads_get_campaign_kpis = (\<lambda>c d. Inr []),
       ads_get_search_terms = (\<lambda>c d m. Inl (BaseOnly ''KeyboardInterrupt'')),
       ads_get_policy_issues = (\<lambda>c. Inr []),
       mc_get_disapproved_products = Inr [],
       py_str = (\<lambda>v. ''?''),
       print_raises = (\<lambda>msg. None)\<rparr> ''123'' ''7d''
   = (Inl (BaseOnly ''KeyboardInterrupt''),
      [Called ''ads_get_account_kpis'', Called ''ads_get_campaign_kpis'',
       Called ''ads_get_search_terms''])"
  by (simp add: build_snapshot_def build_live_def bind_io_def call_def handler_def
        no_developer_token_def)

theorem build_snapshot_fallback_on_error_witness:
  "build_snapshot
     \<lparr>google_ads_developer_token = Some ''token'',
       ads_get_account_kpis = (\<lambda>c d. Inr \<lparr>total_spend = 10, total_conversions = 1,
          average_cpa = Some 10, roas = None, currency = ''USD''\<rparr>),
       ads_get_campaign_kpis = (\<lambda>c d. Inr []),
       ads_get_search_terms = (\<lambda>c d m. Inl (ProviderError ''quota exceeded'')),
       ads_get_policy_issues = (\<lambda>c. Inr []),
       mc_get_disapproved_products = Inr [],
       py_str = (\<lambda>v. ''?''),
       print_raises = (\<lambda>msg. None)\<rparr> ''123'' ''7d''
   = (Inr (build_demo_snapshot ''123'' ''7d''),
      [Called ''ads_get_account_kpis'', Called ''ads_get_campaign_kpis'',
       Called ''ads_get_search_terms'',
       Printed ''API Error: quota exceeded. Falling back to demo mode.'']) \<and>
   fst (build_snapshot
     \<lparr>google_ads_developer_token = Some ''token'',
       ads_get_account_kpis = (\<lambda>c d. Inr \<lparr>total_spend = 10, total_conversions = 1,
          average_cpa = Some 10, roas = None, currency = ''USD''\<rparr>),
       ads_get_campaign_kpis = (\<lambda>c d. Inr []),
       ads_get_search_terms = (\<lambda>c d m. Inr []),
       ads_get_policy_issues = (\<lambda>c. Inr [[''ad_name'' \<mapsto> PStr ''Summer sale'']]),
       mc_get_disapproved_products = Inr [],
       py_str = (\<lambda>v. ''?''),
       print_raises = (\<lambda>msg. None)\<rparr> ''123'' ''7d'')
   = Inr (build_demo_snapshot ''123'' ''7d'')"
proof -
  let ?e = "\<lparr>google_ads_developer_token = Some ''token'',
       ads_get_account_kpis = (\<lambda>c d. Inr \<lparr>total_spend = 10, total_conversions = 1,
          average_cpa = Some 10, roas = None, currency = ''USD''\<rparr>),
       ads_get_campaign_kpis = (\<lambda>c d. Inr []),
       ads_get_search_terms = (\<lambda>c d m. Inl (ProviderError ''quota exceeded'')),
       ads_get_policy_issues = (\<lambda>c. Inr []),
       mc_get_disapproved_products = Inr [],
       py_str = (\<lambda>v. ''?''),
       print_raises = (\<lambda>msg. None)\<rparr>"
  let ?e' = "\<lparr>google_ads_developer_token = Some ''token'',
       ads_get_account_kpis = (\<lambda>c d. Inr \<lparr>total_spend = 10, total_conversions = 1,
          average_cpa = Some 10, roas = None, currency = ''USD''\<rparr>),
       ads_get_campaign_kpis = (\<lambda>c d. Inr []),
       ads_get_search_terms = (\<lambda>c d m. Inr []),
       ads_get_policy_issues = (\<lambda>c. Inr [[''ad_name'' \<mapsto> PStr ''Summer sale'']]),
       mc_get_disapproved_products = Inr [],
       py_str = (\<lambda>v. ''?''),
       print_raises = (\<lambda>msg. None)\<rparr>"
  have configured: "\<not> no_developer_token ?e"
    by (simp add: no_developer_token_def)
  have raised: "fst (build_live ?e ''123'' ''7d'') = Inl (ProviderError ''quota exceeded'')"
    using build_snapshot_fallback_on_error [of ?e "''123''" "''7d''"] by simp
  have ok: "handled ?e (ProviderError ''quota exceeded'')"
    by (simp add: handled_def)
  from build_snapshot_fallback_on_error
         [of ?e "''123''" "''7d''" "ProviderError ''quota exceeded''"]
       configured raised ok
  have "fst (build_snapshot ?e ''123'' ''7d'') = Inr (build_demo_snapshot ''123'' ''7d'')"
    and "\<exists>s. exn_str (ProviderError ''quota exceeded'') = Inr s \<and>
             snd (build_snapshot ?e ''123'' ''7d'')
               = snd (build_live ?e ''123'' ''7d'') @ [Printed (fallback_message s)]"
    by blast+
  moreover have "snd (build_live ?e ''123'' ''7d'') =
      [Called ''ads_get_account_kpis'', Called ''ads_get_campaign_kpis'',
       Called ''ads_get_search_terms'']"
    by (simp add: build_live_def bind_io_def call_def)
  ultimately have first: "build_snapshot ?e ''123'' ''7d''
   = (Inr (build_demo_snapshot ''123'' ''7d''),
      [Called ''ads_get_account_kpis'', Called ''ads_get_campaign_kpis'',
       Called ''ads_get_search_terms'',
       Printed ''API Error: quota exceeded. Falling back to demo mode.''])"
    by (simp add: prod_eq_iff fallback_message_def)
  have configured': "\<not> no_developer_token ?e'"
    by (simp add: no_developer_token_def)
  have detector: "analyze_policy_issues (py_str ?e') [[''ad_name'' \<mapsto> PStr ''Summer sale'']]
                    = Inl (KeyError ''campaign_name'')"
    by (simp add: analyze_policy_issues_def policy_step_def getitem_def)
  have raised': "fst (build_live ?e' ''123'' ''7d'') = Inl (KeyError ''campaign_name'')"
    using build_snapshot_fallback_on_error [of ?e' "''123''" "''7d''"] detector
    by (simp add: assemble_raises)
  have ok': "handled ?e' (KeyError ''campaign_name'')"
    by (simp add: handled_def)
  from build_snapshot_fallback_on_error
         [of ?e' "''123''" "''7d''" "KeyError ''campaign_name''"]
       configured' raised' ok'
  have second: "fst (build_snapshot ?e' ''123'' ''7d'') = Inr (build_demo_snapshot ''123'' ''7d'')"
    by blast
  from first second show ?thesis
    by (rule conjI)
qed

text \<open>
  Claim C8. Without a developer token (none, or an empty one) \<^verbatim>\<open>build_snapshot\<close>
  returns the fallback report and its trace is empty: no provider is called and nothing
  is printed. The fallback report has a total spend of 1250.50, the currency
  \<^verbatim>\<open>USD\<close>, and its first issue is of type \<^verbatim>\<open>disapproved_product\<close>.
\<close>

theorem build_snapshot_demo_mode:
  "(no_developer_token e \<longrightarrow>
      build_snapshot e c d = (Inr (build_demo_snapshot c d), [])) \<and>
   Summary.total_spend (summary (build_demo_snapshot c d)) = 1250.50 \<and>
   Summary.currency (summary (build_demo_snapshot c d)) = ''USD'' \<and>
   (\<exists>x rest. top_issues (build_demo_snapshot c d) = x # rest \<and>
              type x = ''disapproved_product'')"
  by (simp add: build_snapshot_def ret_def build_demo_snapshot_def)

theorem build_snapshot_demo_mode_witness:
  "build_snapshot
     \<lparr>google_ads_developer_token = None,
       ads_get_account_kpis = (\<lambda>c d. Inl (ProviderError ''unreachable'')),
       ads_get_campaign_kpis = (\<lambda>c d. Inr []),
       ads_get_search_terms = (\<lambda>c d m. Inr []),
       ads_get_policy_issues = (\<lambda>c. Inr []),
       mc_get_disapproved_products = Inr [],
       py_str = (\<lambda>v. ''?''),
       print_raises = (\<lambda>msg. Some (OSError ''Broken pipe''))\<rparr> ''123'' ''7d''
     = (Inr (build_demo_snapshot ''123'' ''7d''), []) \<and>
   Summary.total_spend (summary (build_demo_snapshot ''123'' ''7d'')) = 1250.50 \<and>
   Summary.currency (summary (build_demo_snapshot ''123'' ''7d'')) = ''USD'' \<and>
   type (hd (top_issues (build_demo_snapshot ''123'' ''7d''))) = ''disapproved_product''"
proof -
  let ?e = "\<lparr>google_ads_developer_token = None,
       ads_get_account_kpis = (\<lambda>c d. Inl (ProviderError ''unreachable'')),
       ads_get_campaign_kpis = (\<lambda>c d. Inr []),
       ads_get_search_terms = (\<lambda>c d m. Inr []),
       ads_get_policy_issues = (\<lambda>c. Inr []),
       mc_get_disapproved_products = Inr [],
       py_str = (\<lambda>v. ''?''),
       print_raises = (\<lambda>msg. Some (OSError ''Broken pipe''))\<rparr>"
  have "no_developer_token ?e"
    by (simp add: no_developer_token_def)
  with build_snapshot_demo_mode [of ?e "''123''" "''7d''"] show ?thesis
    by auto
qed

text \<open>
  Claim C10. The fallback report does not depend on the customer id, and the date range
  enters it in one place only: the report for \<open>(c, d)\<close> is the report for any other
  \<open>(c', d')\<close> with the summary's date range set to \<open>d\<close>.
\<close>

theorem build_demo_snapshot_ignores_customer:
  "build_demo_snapshot c1 d = build_demo_snapshot c2 d \<and>
   Summary.date_range (summary (build_demo_snapshot c d)) = d \<and>
   build_demo_snapshot c d =
     (build_demo_snapshot c' d')
       \<lparr>summary := (summary (build_demo_snapshot c' d')) \<lparr>Summary.date_range := d\<rparr>\<rparr>"
  by (simp add: build_demo_snapshot_def)

end
